theory Spec2Isabelle
  imports Main "HOL-Library.Char_ord" "HOL-Library.List_Lexorder" "HOL-Library.Multiset"
    "HOL-Library.AList"
begin

section \<open>Clay test-suite generator (\<^verbatim>\<open>_clay.py\<close>)\<close>

text \<open>
  A shallow embedding of \<^verbatim>\<open>ClayTestBuilder\<close>: the directory walk, the extraction of
  test functions with \<^verbatim>\<open>TEST_FUNC_REGEX\<close>, the assembly of suites and the rendering of
  the two generated texts. Python strings are \<^typ>\<open>string\<close>; they are compared in
  code-point order (\<^theory_text>\<open>Char_ord\<close>, \<^theory_text>\<open>List_Lexorder\<close>), as Python compares
  \<^verbatim>\<open>str\<close>. Dictionaries are association lists in insertion order
  (\<^const>\<open>AList.update\<close> replaces the value of an existing key in place and appends a new
  key, as a Python \<^verbatim>\<open>dict\<close> does). Exceptions are values of type \<open>error\<close>. What lies
  outside the module is a parameter: the interpreter (\<open>dialect\<close>), its module \<^verbatim>\<open>re\<close>
  (\<open>engine\<close>), the directory tree (\<open>node\<close>) and the template files (\<open>assets\<close>).
\<close>

subsection \<open>Exceptions\<close>

text \<open>An exception is known by its class. The string says which name, key or kind of
  failure it is about; the message texts of Python, which differ between versions, are
  not modelled.\<close>

datatype error =
    NameError string        \<comment> \<open>an unbound name is evaluated\<close>
  | RuntimeError string
  | ReError string          \<comment> \<open>\<^verbatim>\<open>re.error\<close>, raised by \<^verbatim>\<open>re.compile\<close>\<close>
  | ValueError string
  | KeyError string
  | IOError string
  | Unmodelled string       \<comment> \<open>regular-expression syntax outside the fragment modelled below\<close>

subsection \<open>Characters and small string functions\<close>

abbreviation BS :: char where "BS \<equiv> CHR 0x5C"
abbreviation NL :: char where "NL \<equiv> CHR 0x0A"
abbreviation DQ :: char where "DQ \<equiv> CHR 0x22"
abbreviation TAB :: char where "TAB \<equiv> CHR 0x09"

text \<open>
  The module runs on Python 2 and on Python 3 (it tests \<^verbatim>\<open>sys.version_info\<close>). A
  character of this model is an 8-bit code: a byte of a Python 2 \<^verbatim>\<open>str\<close>, or a code
  point below 256 of a Python 3 \<^verbatim>\<open>str\<close>. The two interpreters differ, on these
  characters, in what counts as white space and as a word character.
\<close>

datatype dialect = Python2 | Python3

text \<open>White space, for \<^verbatim>\<open>\s\<close> and for \<^verbatim>\<open>str.strip()\<close>: \<^verbatim>\<open>[ \t\n\r\f\v]\<close>, and on
  Python 3 also the separators 0x1C to 0x1F, the next-line control 0x85 and the
  no-break space 0xA0.\<close>

definition is_space :: "dialect \<Rightarrow> char \<Rightarrow> bool" where
  "is_space v c =
     ((TAB \<le> c \<and> c \<le> CHR 0x0D) \<or> c = CHR '' ''
      \<or> (v = Python3 \<and> ((CHR 0x1C \<le> c \<and> c \<le> CHR 0x1F) \<or> c = CHR 0x85 \<or> c = CHR 0xA0)))"

definition is_digit :: "char \<Rightarrow> bool" where
  "is_digit c = (CHR ''0'' \<le> c \<and> c \<le> CHR ''9'')"

definition is_alpha :: "char \<Rightarrow> bool" where
  "is_alpha c = ((CHR ''a'' \<le> c \<and> c \<le> CHR ''z'') \<or> (CHR ''A'' \<le> c \<and> c \<le> CHR ''Z''))"

text \<open>The characters of an identifier: \<^verbatim>\<open>[a-zA-Z0-9_]\<close>.\<close>

definition is_ident :: "char \<Rightarrow> bool" where
  "is_ident c = (is_alpha c \<or> is_digit c \<or> c = CHR ''_'')"

text \<open>The letters, digits and numeric characters of Latin-1 above 0x7F: the feminine
  and masculine ordinal indicators, the superscript digits, the micro sign, the
  fractions, and the accented letters (all of 0xC0 to 0xFF but the multiplication and
  the division sign).\<close>

definition is_latin1_alnum :: "char \<Rightarrow> bool" where
  "is_latin1_alnum c =
     (c = CHR 0xAA \<or> c = CHR 0xB2 \<or> c = CHR 0xB3 \<or> c = CHR 0xB5 \<or> c = CHR 0xB9 \<or> c = CHR 0xBA
      \<or> (CHR 0xBC \<le> c \<and> c \<le> CHR 0xBE) \<or> (CHR 0xC0 \<le> c \<and> c \<le> CHR 0xD6)
      \<or> (CHR 0xD8 \<le> c \<and> c \<le> CHR 0xF6) \<or> CHR 0xF8 \<le> c)"

text \<open>Word characters, for \<^verbatim>\<open>\w\<close>: \<^verbatim>\<open>[a-zA-Z0-9_]\<close>, and on Python 3 every
  character that is alphanumeric in Unicode.\<close>

definition is_word :: "dialect \<Rightarrow> char \<Rightarrow> bool" where
  "is_word v c = (is_ident c \<or> (v = Python3 \<and> is_latin1_alnum c))"

text \<open>\<^verbatim>\<open>sep.join(xs)\<close>\<close>

fun join :: "string \<Rightarrow> string list \<Rightarrow> string" where
  "join sep [] = []"
| "join sep [x] = x"
| "join sep (x # y # ys) = x @ sep @ join sep (y # ys)"

text \<open>\<^verbatim>\<open>s.split(sep)\<close> for a one-character separator: always at least one piece.\<close>

fun split :: "char \<Rightarrow> string \<Rightarrow> string list" where
  "split sep [] = [[]]"
| "split sep (c # cs) =
     (if c = sep then [] # split sep cs
      else (case split sep cs of p # ps \<Rightarrow> (c # p) # ps | [] \<Rightarrow> [[c]]))"

text \<open>\<^verbatim>\<open>s.strip()\<close>\<close>

definition strip :: "dialect \<Rightarrow> string \<Rightarrow> string" where
  "strip v s = rev (dropWhile (is_space v) (rev (dropWhile (is_space v) s)))"

text \<open>\<^verbatim>\<open>s.replace(old, new)\<close> for a one-character \<^verbatim>\<open>old\<close>.\<close>

definition replace :: "char \<Rightarrow> string \<Rightarrow> string \<Rightarrow> string" where
  "replace old new s = concat (map (\<lambda>c. if c = old then new else [c]) s)"

text \<open>\<^verbatim>\<open>str(n)\<close> and \<^verbatim>\<open>"%d" % n\<close> for a non-negative integer.\<close>

definition digit_char :: "nat \<Rightarrow> char" where
  "digit_char d = char_of (of_char (CHR ''0'') + d)"

function str_nat :: "nat \<Rightarrow> string" where
  "str_nat n = (if n < 10 then [digit_char n] else str_nat (n div 10) @ [digit_char (n mod 10)])"
  by pat_completeness auto
termination
  by (relation "measure id") auto

declare str_nat.simps [simp del]

text \<open>\<^verbatim>\<open>fmt % arg\<close> for a format with a single \<^verbatim>\<open>%s\<close> conversion and a string argument.\<close>

fun format_s :: "string \<Rightarrow> string \<Rightarrow> string" where
  "format_s [] arg = []"
| "format_s [c] arg = [c]"
| "format_s (c # d # cs) arg =
     (if c = CHR ''%'' \<and> d = CHR ''s'' then arg @ cs else c # format_s (d # cs) arg)"

subsection \<open>Regular expressions\<close>

text \<open>
  The module \<^verbatim>\<open>re\<close> is used in one way (lines 206 and 211):
  \<^verbatim>\<open>re.compile(pattern, re.MULTILINE).findall(text)\<close>. An \<open>engine\<close> stands for this
  call: it gives the exception raised, or the list of the matches, each the tuple of
  the texts of its groups. The functions of the builder take the engine as a
  parameter \<open>re\<close>, so that what is proved of them for every engine holds of the
  interpreter's own. \<open>py_findall\<close> below is an engine that is computed here.

  The fragment of the syntax of \<^verbatim>\<open>re\<close> that \<open>py_findall\<close> models: literal characters
  (with \<^verbatim>\<open>]\<close>, \<^verbatim>\<open>}\<close> and a \<^verbatim>\<open>{\<close> that opens no repetition count), \<^verbatim>\<open>.\<close>,
  \<^verbatim>\<open>^\<close> (with \<^verbatim>\<open>re.MULTILINE\<close>), the escapes \<^verbatim>\<open>\s\<close>, \<^verbatim>\<open>\w\<close> and backslash
  before a non-alphanumeric character, capturing groups, alternation and the greedy
  quantifiers \<^verbatim>\<open>*\<close>, \<^verbatim>\<open>+\<close>, \<^verbatim>\<open>?\<close> on expressions that match no empty text.
  Everything that \<^verbatim>\<open>TEST_FUNC_REGEX\<close> uses is in the fragment; the suite name substituted into it is parsed as part of the
  pattern, and may leave the fragment (result \<open>Unmodelled\<close>) or be ill-formed
  (result \<open>ReError\<close>).
\<close>

datatype atom = Lit char | AnyChar | Space | Word

datatype rx =
    Eps
  | Atom atom
  | Bol
  | Seq rx rx
  | Alt rx rx
  | Star rx
  | Plus rx
  | Opt rx
  | Group nat rx

type_synonym engine = "string \<Rightarrow> string \<Rightarrow> error + string list list"

fun atom_ok :: "dialect \<Rightarrow> atom \<Rightarrow> char \<Rightarrow> bool" where
  "atom_ok v (Lit c) x = (x = c)"
| "atom_ok v AnyChar x = (x \<noteq> NL)"
| "atom_ok v Space x = is_space v x"
| "atom_ok v Word x = is_word v x"

fun seq_of :: "rx list \<Rightarrow> rx" where
  "seq_of [] = Eps"
| "seq_of [r] = r"
| "seq_of (r # rs) = Seq r (seq_of rs)"

fun alt_of :: "rx list \<Rightarrow> rx" where
  "alt_of [] = Eps"
| "alt_of [r] = r"
| "alt_of (r # rs) = Alt r (alt_of rs)"

fun is_repeat :: "rx \<Rightarrow> bool" where
  "is_repeat (Star r) = True"
| "is_repeat (Plus r) = True"
| "is_repeat (Opt r) = True"
| "is_repeat r = False"

text \<open>The expressions that can match the empty text. Repeating such an expression is
  left out of the fragment.\<close>

fun nullable :: "rx \<Rightarrow> bool" where
  "nullable Eps = True"
| "nullable (Atom a) = False"
| "nullable Bol = True"
| "nullable (Seq a b) = (nullable a \<and> nullable b)"
| "nullable (Alt a b) = (nullable a \<or> nullable b)"
| "nullable (Star r) = True"
| "nullable (Plus r) = nullable r"
| "nullable (Opt r) = True"
| "nullable (Group g r) = nullable r"

text \<open>A frame of the parser: the number of the group being read, its finished
  alternatives, and the items of the alternative being read.\<close>

type_synonym frame = "nat \<times> rx list \<times> rx list"

definition push_item :: "rx \<Rightarrow> frame list \<Rightarrow> frame list" where
  "push_item r fs = (case fs of [] \<Rightarrow> [] | (g, alts, cur) # fs' \<Rightarrow> (g, alts, cur @ [r]) # fs')"

definition close_frame :: "rx list \<Rightarrow> rx list \<Rightarrow> rx" where
  "close_frame alts cur = alt_of (alts @ [seq_of cur])"

definition escape :: "char \<Rightarrow> error + atom" where
  "escape c =
     (if c = CHR ''s'' then Inr Space
      else if c = CHR ''w'' then Inr Word
      else if is_alpha c \<or> is_digit c then Inl (Unmodelled [BS, c])
      else Inr (Lit c))"

definition quantify :: "char \<Rightarrow> rx \<Rightarrow> rx" where
  "quantify q r = (if q = CHR ''*'' then Star r else if q = CHR ''+'' then Plus r else Opt r)"

text \<open>What follows a \<^verbatim>\<open>{\<close> that opens a repetition count: digits, then possibly a
  comma and digits, then \<^verbatim>\<open>}\<close>. (\<^verbatim>\<open>{}\<close> is not a count: the parser tests for it
  first.) Any other \<^verbatim>\<open>{\<close> is a literal character.\<close>

definition repeat_count :: "string \<Rightarrow> bool" where
  "repeat_count xs =
     (let r1 = dropWhile is_digit xs;
          r2 = (if r1 \<noteq> [] \<and> hd r1 = CHR '','' then dropWhile is_digit (tl r1) else r1)
      in r2 \<noteq> [] \<and> hd r2 = CHR ''}'')"

definition opens_repeat :: "string \<Rightarrow> bool" where
  "opens_repeat xs = (\<not> (xs \<noteq> [] \<and> hd xs = CHR ''}'') \<and> repeat_count xs)"

text \<open>\<^verbatim>\<open>re.compile\<close>: the pattern is read left to right; the result is the expression
  and the number of its capturing groups.\<close>

fun re_parse :: "string \<Rightarrow> frame list \<Rightarrow> nat \<Rightarrow> error + rx \<times> nat" where
  "re_parse [] fs n =
     (case fs of
        [(g, alts, cur)] \<Rightarrow> Inr (close_frame alts cur, n)
      | _ \<Rightarrow> Inl (ReError ''missing ), unterminated subpattern''))"
| "re_parse (x # xs) fs n =
     (if x = BS then
        (case xs of
           [] \<Rightarrow> Inl (ReError ''bad escape (end of pattern)'')
         | y # ys \<Rightarrow>
             (case escape y of
                Inl e \<Rightarrow> Inl e
              | Inr a \<Rightarrow> re_parse ys (push_item (Atom a) fs) n))
      else if x = CHR ''('' then
        (case xs of
           [] \<Rightarrow> Inl (ReError ''missing ), unterminated subpattern'')
         | y # ys \<Rightarrow>
             if y = CHR ''?'' then Inl (Unmodelled ''(?'')
             else re_parse xs ((Suc n, [], []) # fs) (Suc n))
      else if x = CHR '')'' then
        (case fs of
           (g, alts, cur) # f # fs' \<Rightarrow>
             re_parse xs (push_item (Group g (close_frame alts cur)) (f # fs')) n
         | _ \<Rightarrow> Inl (ReError ''unbalanced parenthesis''))
      else if x = CHR ''|'' then
        (case fs of
           (g, alts, cur) # fs' \<Rightarrow> re_parse xs ((g, alts @ [seq_of cur], []) # fs') n
         | [] \<Rightarrow> Inl (ReError ''unbalanced parenthesis''))
      else if x = CHR ''*'' \<or> x = CHR ''+'' \<or> x = CHR ''?'' then
        (case fs of
           (g, alts, cur) # fs' \<Rightarrow>
             if cur = [] \<or> last cur = Bol then Inl (ReError ''nothing to repeat'')
             else if is_repeat (last cur) then
               (if x = CHR ''*'' then Inl (ReError ''multiple repeat'')
                else Inl (Unmodelled ''lazy or possessive quantifier''))
             else if nullable (last cur) then Inl (Unmodelled ''repeat of an empty match'')
             else re_parse xs ((g, alts, butlast cur @ [quantify x (last cur)]) # fs') n
         | [] \<Rightarrow> Inl (ReError ''nothing to repeat''))
      else if x = CHR ''.'' then re_parse xs (push_item (Atom AnyChar) fs) n
      else if x = CHR ''^'' then re_parse xs (push_item Bol fs) n
      else if x = CHR ''$'' \<or> x = CHR ''['' then Inl (Unmodelled [x])
      else if x = CHR ''{'' \<and> opens_repeat xs then Inl (Unmodelled ''{m,n}'')
      else re_parse xs (push_item (Atom (Lit x)) fs) n)"

definition re_compile :: "string \<Rightarrow> error + rx \<times> nat" where
  "re_compile pat = re_parse pat [(0, [], [])] 0"

text \<open>
  Matching by backtracking. A state is the character before the current position
  (\<open>None\<close> at the start of the text), the rest of the text, and the text captured by each
  group so far. \<open>rx_match r st\<close> lists the states in which a match of \<open>r\<close> from \<open>st\<close> can
  end, in the order in which the backtracking matcher tries them, so that the head of
  the list is the match that \<^verbatim>\<open>re\<close> reports.
\<close>

type_synonym mstate = "char option \<times> string \<times> (nat \<times> string) list"

function rx_match :: "dialect \<Rightarrow> rx \<Rightarrow> mstate \<Rightarrow> mstate list" where
  "rx_match v Eps st = [st]"
| "rx_match v (Atom a) (p, s, c) =
     (case s of [] \<Rightarrow> [] | x # xs \<Rightarrow> if atom_ok v a x then [(Some x, xs, c)] else [])"
| "rx_match v Bol (p, s, c) = (if p = None \<or> p = Some NL then [(p, s, c)] else [])"
| "rx_match v (Seq a b) st = concat (map (rx_match v b) (rx_match v a st))"
| "rx_match v (Alt a b) st = rx_match v a st @ rx_match v b st"
| "rx_match v (Star r) (p, s, c) =
     concat (map (\<lambda>st'. if length (fst (snd st')) < length s then rx_match v (Star r) st' else [])
                 (rx_match v r (p, s, c))) @ [(p, s, c)]"
| "rx_match v (Plus r) (p, s, c) =
     concat (map (\<lambda>st'. (if length (fst (snd st')) < length s then rx_match v (Plus r) st' else [])
                          @ [st'])
                 (rx_match v r (p, s, c)))"
| "rx_match v (Opt r) st = rx_match v r st @ [st]"
| "rx_match v (Group g r) (p, s, c) =
     map (\<lambda>st'. (fst st', fst (snd st'),
                  AList.update g (take (length s - length (fst (snd st'))) s) (snd (snd st'))))
         (rx_match v r (p, s, c))"
  by pat_completeness auto
termination
  by (relation "measures [\<lambda>(v, r, st). size r, \<lambda>(v, r, p, s, c). length s]") auto

text \<open>The tuple that \<^verbatim>\<open>findall\<close> returns for one match of a pattern with \<open>n\<close> groups,
  \<open>n\<close> at least 2: the text of groups \<open>1..n\<close>, the empty string for a group that did
  not take part.\<close>

definition groups :: "nat \<Rightarrow> (nat \<times> string) list \<Rightarrow> string list" where
  "groups n c = map (\<lambda>i. case map_of c i of None \<Rightarrow> [] | Some g \<Rightarrow> g) [1..<Suc n]"

text \<open>\<^verbatim>\<open>regex.findall(contents)\<close>: the leftmost match from the current position, then on
  from its end; where there is no match at a position, on from the next character. How
  the search goes on after an empty match differs between the versions of \<^verbatim>\<open>re\<close>, and
  is left out of the fragment: no pattern made from \<^verbatim>\<open>TEST_FUNC_REGEX\<close> and a suite
  name that is read as it is written has an empty match.\<close>

function findall_from ::
  "dialect \<Rightarrow> rx \<Rightarrow> nat \<Rightarrow> char option \<Rightarrow> string \<Rightarrow> error + string list list" where
  "findall_from v r n p s =
     (case rx_match v r (p, s, []) of
        st # _ \<Rightarrow>
          if length (fst (snd st)) < length s
          then (case findall_from v r n (fst st) (fst (snd st)) of
                  Inl e \<Rightarrow> Inl e
                | Inr matches \<Rightarrow> Inr (groups n (snd (snd st)) # matches))
          else Inl (Unmodelled ''empty match'')
      | [] \<Rightarrow> (case s of [] \<Rightarrow> Inr [] | x # xs \<Rightarrow> findall_from v r n (Some x) xs))"
  by pat_completeness auto
termination
  by (relation "measure (\<lambda>(v, r, n, p, s). length s)") auto

declare findall_from.simps [simp del]

definition findall :: "dialect \<Rightarrow> rx \<times> nat \<Rightarrow> string \<Rightarrow> error + string list list" where
  "findall v regex contents = findall_from v (fst regex) (snd regex) None contents"

text \<open>The engine of the interpreter \<open>v\<close>, on the patterns of the fragment. (For a
  pattern with fewer than two groups \<^verbatim>\<open>findall\<close> returns strings, not tuples; a pattern
  made from \<^verbatim>\<open>TEST_FUNC_REGEX\<close> has its three groups at least.) The result
  \<open>Unmodelled\<close> says that the pattern is outside the fragment, not that \<^verbatim>\<open>re\<close> raises;
  no property below is stated for such a pattern.\<close>

definition py_findall :: "dialect \<Rightarrow> engine" where
  "py_findall v pat contents =
     (case re_compile pat of
        Inl e \<Rightarrow> Inl e
      | Inr regex \<Rightarrow>
          if snd regex < 2 then Inl (Unmodelled ''fewer than two groups'')
          else findall v regex contents)"

text \<open>\<^verbatim>\<open>TEST_FUNC_REGEX = r"^(void\s+(test_%s__(\w+))\(\s*void\s*\))\s*\{"\<close>\<close>

definition TEST_FUNC_REGEX :: string where
  "TEST_FUNC_REGEX =
     ''^(void'' @ BS # ''s+(test_%s__('' @ BS # ''w+))'' @ BS # ''('' @ BS # ''s*void''
       @ BS # ''s*'' @ BS # ''))'' @ BS # ''s*'' @ BS # ''{''"

subsection \<open>\<^verbatim>\<open>string.Template\<close>\<close>

text \<open>
  \<^verbatim>\<open>Template(t).substitute(**m)\<close>: \<^verbatim>\<open>$$\<close> is a dollar sign, \<^verbatim>\<open>$name\<close> and
  \<^verbatim>\<open>${name}\<close> are replaced by the value of \<^verbatim>\<open>name\<close> (\<^verbatim>\<open>KeyError\<close> when \<open>m\<close> has no such
  key), any other use of \<^verbatim>\<open>$\<close> raises \<^verbatim>\<open>ValueError\<close>. A name is an identifier,
  \<^verbatim>\<open>[_a-zA-Z][_a-zA-Z0-9]*\<close>, on both interpreters. The values are already strings
  here (\<^verbatim>\<open>str\<close> is applied where the mapping is built).
\<close>

definition is_id_start :: "char \<Rightarrow> bool" where
  "is_id_start c = (is_alpha c \<or> c = CHR ''_'')"

definition dict_get :: "(string \<times> 'v) list \<Rightarrow> string \<Rightarrow> error + 'v" where
  "dict_get d k = (case map_of d k of None \<Rightarrow> Inl (KeyError k) | Some v \<Rightarrow> Inr v)"

definition prepend :: "string \<Rightarrow> error + string \<Rightarrow> error + string" where
  "prepend v r = (case r of Inl e \<Rightarrow> Inl e | Inr t \<Rightarrow> Inr (v @ t))"

function substitute :: "string \<Rightarrow> (string \<times> string) list \<Rightarrow> error + string" where
  "substitute [] m = Inr []"
| "substitute (c # cs) m =
     (if c \<noteq> CHR ''$'' then prepend [c] (substitute cs m)
      else if cs = [] then Inl (ValueError ''Invalid placeholder in string'')
      else if hd cs = CHR ''$'' then prepend ''$'' (substitute (tl cs) m)
      else if is_id_start (hd cs) then
        (case dict_get m (takeWhile is_ident cs) of
           Inl e \<Rightarrow> Inl e
         | Inr v \<Rightarrow> prepend v (substitute (dropWhile is_ident cs) m))
      else if hd cs = CHR ''{'' \<and> tl cs \<noteq> [] \<and> is_id_start (hd (tl cs))
              \<and> dropWhile is_ident (tl cs) \<noteq> [] \<and> hd (dropWhile is_ident (tl cs)) = CHR ''}'' then
        (case dict_get m (takeWhile is_ident (tl cs)) of
           Inl e \<Rightarrow> Inl e
         | Inr v \<Rightarrow> prepend v (substitute (tl (dropWhile is_ident (tl cs))) m))
      else Inl (ValueError ''Invalid placeholder in string''))"
  by pat_completeness auto
termination
proof (relation "measure (\<lambda>(t, m). length t)")
  fix c :: char and cs :: string and m :: "(string \<times> string) list"
  have a: "length (dropWhile is_ident cs) \<le> length cs"
    by (rule length_dropWhile_le)
  have b: "length (dropWhile is_ident (tl cs)) \<le> length (tl cs)"
    by (rule length_dropWhile_le)
  show "((dropWhile is_ident cs, m), c # cs, m) \<in> measure (\<lambda>(t, m). length t)"
    using a by simp
  show "((tl (dropWhile is_ident (tl cs)), m), c # cs, m) \<in> measure (\<lambda>(t, m). length t)"
    using b by simp
qed auto

declare substitute.simps [simp del]

subsection \<open>The data model\<close>

record callback =
  short_name :: string
  decl_text :: string   \<comment> \<open>the key \<^verbatim>\<open>declaration\<close>\<close>
  symbol :: string

record suite =
  name :: string
  initialize :: "callback option"
  cleanup :: "callback option"
  cb_count :: nat

text \<open>The attributes of a \<^verbatim>\<open>ClayTestBuilder\<close>, and what it has printed.\<close>

record builder =
  declarations :: "string list"
  suite_names :: "string list"
  callback_data :: "(string \<times> callback list) list"
  suite_data :: "(string \<times> suite) list"
  clay_path :: "string option"
  path :: string
  modules :: "string list"
  stdout :: "string list"

subsection \<open>\<^verbatim>\<open>_process_test_file\<close>\<close>

text \<open>The loop over the matches (lines 211 to 223). Each match is unpacked into three
  names, which fails unless the pattern has exactly three groups.\<close>

fun classify ::
  "string list list \<Rightarrow> callback list \<times> callback option \<times> callback option
     \<Rightarrow> error + callback list \<times> callback option \<times> callback option" where
  "classify [] acc = Inr acc"
| "classify (m # ms) (callbacks, ini, cln) =
     (case m of
        [decl, symb, sname] \<Rightarrow>
          (let data = \<lparr>short_name = sname, decl_text = decl, symbol = symb\<rparr> in
           if sname = ''initialize'' then classify ms (callbacks, Some data, cln)
           else if sname = ''cleanup'' then classify ms (callbacks, ini, Some data)
           else classify ms (callbacks @ [data], ini, cln))
      | _ \<Rightarrow> Inl (ValueError ''wrong number of values to unpack''))"

text \<open>Lines 205 to 223: the pattern is compiled, the matches are found and classified.\<close>

definition find_tests ::
  "engine \<Rightarrow> string \<Rightarrow> string
     \<Rightarrow> error + callback list \<times> callback option \<times> callback option" where
  "find_tests re suite_name contents =
     (case re (format_s TEST_FUNC_REGEX suite_name) contents of
        Inl e \<Rightarrow> Inl e
      | Inr matches \<Rightarrow> classify matches ([], None, None))"

definition opt_decl :: "callback option \<Rightarrow> string list" where
  "opt_decl cb = (case cb of None \<Rightarrow> [] | Some d \<Rightarrow> [decl_text d])"

definition process_test_file ::
  "engine \<Rightarrow> string \<Rightarrow> string \<Rightarrow> builder \<Rightarrow> error + builder" where
  "process_test_file re suite_name contents b =
     (case find_tests re suite_name contents of
        Inl e \<Rightarrow> Inl e
      | Inr (callbacks, ini, cln) \<Rightarrow>
          if callbacks = [] then Inr b
          else
            (let tests_in_suite = length callbacks;
                 suite = \<lparr>name = suite_name, initialize = ini, cleanup = cln,
                          cb_count = tests_in_suite\<rparr>
             in Inr (b\<lparr>declarations :=
                         declarations b @ opt_decl ini @ opt_decl cln @ map decl_text callbacks,
                       callback_data :=
                         AList.update suite_name (sort_key short_name callbacks) (callback_data b),
                       suite_data := AList.update suite_name suite (suite_data b),
                       suite_names := suite_names b @ [suite_name],
                       stdout := stdout b @
                         [''  '' @ suite_name @ '' ('' @ str_nat tests_in_suite @ '' tests)'']\<rparr>)))"

subsection \<open>The directory walk (\<^verbatim>\<open>__init__\<close>)\<close>

text \<open>
  A directory tree: a regular file with its text, or a directory with its entries in
  the order in which the file system lists them.
\<close>

datatype node = File string | Dir "(string \<times> node) list"

text \<open>\<^verbatim>\<open>os.path.join(a, b)\<close> on POSIX.\<close>

definition path_join :: "string \<Rightarrow> string \<Rightarrow> string" where
  "path_join a b =
     (if b \<noteq> [] \<and> hd b = CHR ''/'' then b
      else if a = [] \<or> last a = CHR ''/'' then a @ b
      else a @ ''/'' @ b)"

definition dirs_of :: "(string \<times> node) list \<Rightarrow> string list" where
  "dirs_of es = concat (map (\<lambda>(n, e). case e of Dir _ \<Rightarrow> [n] | File _ \<Rightarrow> []) es)"

definition files_of :: "(string \<times> node) list \<Rightarrow> (string \<times> string) list" where
  "files_of es = concat (map (\<lambda>(n, e). case e of Dir _ \<Rightarrow> [] | File c \<Rightarrow> [(n, c)]) es)"

text \<open>\<^verbatim>\<open>os.walk(top)\<close>, top-down: the triple of a directory, then the walks of its
  subdirectories in listing order. The file names come with the text that
  \<^verbatim>\<open>open(full_path).read()\<close> returns. A top that is not a directory yields nothing.\<close>

fun walk :: "string \<Rightarrow> node \<Rightarrow> (string \<times> string list \<times> (string \<times> string) list) list" where
  "walk t (File c) = []"
| "walk t (Dir es) =
     (t, dirs_of es, files_of es)
       # concat (map (\<lambda>(n, e). case e of Dir _ \<Rightarrow> walk (path_join t n) e | File _ \<Rightarrow> []) es)"

text \<open>\<^verbatim>\<open>fnmatch.filter(files, "*.c")\<close> on POSIX: the names that end in \<^verbatim>\<open>.c\<close>.\<close>

definition fnmatch_c :: "string \<Rightarrow> bool" where
  "fnmatch_c n = (2 \<le> length n \<and> drop (length n - 2) n = ''.c'')"

text \<open>Lines 60 to 67: the suite name of a file \<open>test_file\<close> found in directory \<open>root\<close>.\<close>

definition test_name :: "string \<Rightarrow> string \<Rightarrow> string \<Rightarrow> string" where
  "test_name p root test_file =
     (let module_root = filter (\<lambda>c. c \<noteq> []) (split CHR ''/'' (drop (length p) root))
      in join ''_'' (module_root @ [take (length test_file - 2) test_file]))"

text \<open>The calls of \<^verbatim>\<open>_process_test_file\<close> that the inner loop makes for one triple
  of the walk, and those of the two nested loops, in order.\<close>

definition triple_files ::
  "string \<Rightarrow> string \<times> string list \<times> (string \<times> string) list \<Rightarrow> (string \<times> string) list" where
  "triple_files p = (\<lambda>(root, dirs, files).
                    map (\<lambda>(test_file, contents). (test_name p root test_file, contents))
                        (filter (\<lambda>(n, c). fnmatch_c n) files))"

definition suite_files :: "string \<Rightarrow> node \<Rightarrow> (string \<times> string) list" where
  "suite_files p fs = concat (map (triple_files p) (walk p fs))"

fun process_all :: "engine \<Rightarrow> (string \<times> string) list \<Rightarrow> builder \<Rightarrow> error + builder" where
  "process_all re [] b = Inr b"
| "process_all re ((n, c) # fs) b =
     (case process_test_file re n c b of Inl e \<Rightarrow> Inl e | Inr b' \<Rightarrow> process_all re fs b')"

text \<open>
  The names with a string value that are bound when line 74 is evaluated: the
  parameters of \<^verbatim>\<open>__init__\<close>. (Its other local names are \<^verbatim>\<open>self\<close>, \<^verbatim>\<open>root\<close>,
  \<^verbatim>\<open>dirs\<close>, \<^verbatim>\<open>files\<close>, \<^verbatim>\<open>module_root\<close>, \<^verbatim>\<open>tests_in_module\<close>, \<^verbatim>\<open>test_file\<close>,
  \<^verbatim>\<open>full_path\<close>, \<^verbatim>\<open>test_name\<close> and \<^verbatim>\<open>f\<close>; the module's globals are its imports,
  \<^verbatim>\<open>VERSION\<close>, \<^verbatim>\<open>TEST_FUNC_REGEX\<close>, \<^verbatim>\<open>CLAY_HEADER\<close>, \<^verbatim>\<open>main\<close> and
  \<^verbatim>\<open>ClayTestBuilder\<close>.)
\<close>

definition init_scope :: "string \<Rightarrow> string option \<Rightarrow> string \<Rightarrow> (string \<times> string) list" where
  "init_scope p cp print_mode =
     [(''path'', p), (''print_mode'', print_mode)]
       @ (case cp of None \<Rightarrow> [] | Some c \<Rightarrow> [(''clay_path'', c)])"

definition eval_name :: "(string \<times> string) list \<Rightarrow> string \<Rightarrow> error + string" where
  "eval_name scope x = (case map_of scope x of None \<Rightarrow> Inl (NameError x) | Some v \<Rightarrow> Inr v)"

text \<open>Lines 73 and 74: \<^verbatim>\<open>raise RuntimeError('No tests found under "%s"' % folder_name)\<close>.
  The argument is evaluated before the exception is built.\<close>

definition raise_no_tests :: "(string \<times> string) list \<Rightarrow> error" where
  "raise_no_tests scope =
     (case eval_name scope ''folder_name'' of
        Inl e \<Rightarrow> e
      | Inr v \<Rightarrow> RuntimeError (format_s (''No tests found under '' @ DQ # ''%s'' @ [DQ]) v))"

text \<open>Lines 41 to 57: the attributes before the walk. \<open>p\<close> and \<open>cp\<close> stand for the
  results of \<^verbatim>\<open>os.path.abspath\<close>.\<close>

definition initial_builder :: "string \<Rightarrow> string option \<Rightarrow> string \<Rightarrow> builder" where
  "initial_builder p cp print_mode =
     \<lparr>declarations = [], suite_names = [], callback_data = [], suite_data = [],
      clay_path = cp, path = p,
      modules = [''clay_sandbox.c'', ''clay_fixtures.c'', ''clay_fs.c'',
                 format_s ''clay_print_%s.c'' print_mode],
      stdout = [''Loading test suites...'']\<rparr>"

text \<open>\<^verbatim>\<open>ClayTestBuilder(path, clay_path, print_mode)\<close> on the directory tree \<open>fs\<close> found at
  \<open>p\<close>.\<close>

definition init ::
  "engine \<Rightarrow> string \<Rightarrow> string option \<Rightarrow> string \<Rightarrow> node \<Rightarrow> error + builder" where
  "init re p cp print_mode fs =
     (case process_all re (suite_files p fs) (initial_builder p cp print_mode) of
        Inl e \<Rightarrow> Inl e
      | Inr b \<Rightarrow>
          if suite_data b = [] then Inl (raise_no_tests (init_scope p cp print_mode))
          else Inr b)"

subsection \<open>Rendering\<close>

text \<open>Line 92: \<^verbatim>\<open>'{"%s", &%s}' % (cb['short_name'], cb['symbol'])\<close>\<close>

definition render_cb :: "callback \<Rightarrow> string" where
  "render_cb cb = ''{'' @ DQ # short_name cb @ DQ # '', &'' @ symbol cb @ ''}''"

definition fmap :: "('a \<Rightarrow> 'b) \<Rightarrow> error + 'a \<Rightarrow> error + 'b" where
  "fmap f r = (case r of Inl e \<Rightarrow> Inl e | Inr v \<Rightarrow> Inr (f v))"

text \<open>A list comprehension whose element expression can raise: the first exception
  ends it.\<close>

fun traverse :: "('a \<Rightarrow> error + 'b) \<Rightarrow> 'a list \<Rightarrow> error + 'b list" where
  "traverse f [] = Inr []"
| "traverse f (x # xs) =
     (case f x of
        Inl e \<Rightarrow> Inl e
      | Inr y \<Rightarrow> (case traverse f xs of Inl e \<Rightarrow> Inl e | Inr ys \<Rightarrow> Inr (y # ys)))"

text \<open>The template of \<^verbatim>\<open>_render_suite\<close> (lines 95 to 103).\<close>

definition SUITE_TEMPLATE :: string where
  "SUITE_TEMPLATE =
     ''\<newline>    {\<newline>        '' @ DQ # ''${clean_name}'' @ DQ # '',\<newline>        ${initialize},\<newline>        ${cleanup},\<newline>        ${cb_ptr}, ${cb_count}\<newline>    }\<newline>''"

definition render_lifecycle :: "callback option \<Rightarrow> string" where
  "render_lifecycle cb = (case cb of Some c \<Rightarrow> render_cb c | None \<Rightarrow> ''{NULL, NULL}'')"

definition render_suite :: "dialect \<Rightarrow> suite \<Rightarrow> error + string" where
  "render_suite v s =
     fmap (strip v)
       (substitute SUITE_TEMPLATE
          [(''clean_name'', replace CHR ''_'' ''::'' (name s)),
           (''initialize'', render_lifecycle (initialize s)),
           (''cleanup'', render_lifecycle (cleanup s)),
           (''cb_ptr'', format_s ''_clay_cb_%s'' (name s)),
           (''cb_count'', str_nat (cb_count s))])"

text \<open>The template of \<^verbatim>\<open>_render_callbacks\<close> (lines 119 to 124).\<close>

definition CALLBACKS_TEMPLATE :: string where
  "CALLBACKS_TEMPLATE =
     ''\<newline>static const struct clay_func _clay_cb_${suite_name}[] = {\<newline>    ${callbacks}\<newline>};\<newline>''"

definition ordinary :: "callback \<Rightarrow> bool" where
  "ordinary cb = (short_name cb \<noteq> ''initialize'' \<and> short_name cb \<noteq> ''cleanup'')"

definition render_callbacks :: "dialect \<Rightarrow> string \<Rightarrow> callback list \<Rightarrow> error + string" where
  "render_callbacks v suite_name callbacks =
     fmap (strip v)
       (substitute CALLBACKS_TEMPLATE
          [(''suite_name'', suite_name),
           (''callbacks'', join ('','' @ [NL, TAB]) (map render_cb (filter ordinary callbacks)))])"

text \<open>
  \<^verbatim>\<open>_load_file\<close> reads a file under \<^verbatim>\<open>clay_path\<close> or an entry of the table
  \<^verbatim>\<open>CLAY_FILES\<close>, which is appended to the module when it is packaged. Both are outside
  the module: \<open>assets cp filename\<close> stands for the text found (or the exception raised)
  for \<open>filename\<close> when \<^verbatim>\<open>clay_path\<close> is \<open>cp\<close>.
\<close>

type_synonym assets = "string option \<Rightarrow> string \<Rightarrow> error + string"

definition load_file :: "assets \<Rightarrow> builder \<Rightarrow> string \<Rightarrow> error + string" where
  "load_file assets b filename = assets (clay_path b) filename"

definition get_modules :: "assets \<Rightarrow> builder \<Rightarrow> error + string" where
  "get_modules assets b = fmap (join [NL]) (traverse (load_file assets b) (modules b))"

text \<open>Lines 139 to 142: the text substituted for \<^verbatim>\<open>extern_declarations\<close>.\<close>

definition extern_lines :: "builder \<Rightarrow> string list" where
  "extern_lines b = map (format_s ''extern %s;'') (sort (declarations b))"

definition render_header :: "assets \<Rightarrow> builder \<Rightarrow> error + string" where
  "render_header assets b =
     (case load_file assets b ''clay.h'' of
        Inl e \<Rightarrow> Inl e
      | Inr template \<Rightarrow>
          substitute template [(''extern_declarations'', join [NL] (extern_lines b))])"

text \<open>Lines 150 to 164: the rendered suite descriptors, the rendered callback arrays
  and the callback count of \<^verbatim>\<open>_render_main\<close>.\<close>

definition rendered_suites :: "dialect \<Rightarrow> builder \<Rightarrow> error + string list" where
  "rendered_suites v b =
     traverse (\<lambda>s. case dict_get (suite_data b) s of Inl e \<Rightarrow> Inl e | Inr su \<Rightarrow> render_suite v su)
              (sort (suite_names b))"

definition rendered_callbacks :: "dialect \<Rightarrow> builder \<Rightarrow> error + string list" where
  "rendered_callbacks v b =
     traverse (\<lambda>s. case dict_get (callback_data b) s of
                      Inl e \<Rightarrow> Inl e
                    | Inr cbs \<Rightarrow> render_callbacks v s cbs)
              (sort (suite_names b))"

definition callback_count :: "builder \<Rightarrow> nat" where
  "callback_count b = sum_list (map (\<lambda>cbs. length cbs) (map snd (callback_data b)))"

text \<open>The keyword arguments of \<^verbatim>\<open>template.substitute\<close> in \<^verbatim>\<open>_render_main\<close>
  (lines 166 to 172).\<close>

definition main_values ::
  "dialect \<Rightarrow> assets \<Rightarrow> builder \<Rightarrow> error + (string \<times> string) list" where
  "main_values v assets b =
     (case rendered_suites v b of
        Inl e \<Rightarrow> Inl e
      | Inr suite_data_r \<Rightarrow>
     (case rendered_callbacks v b of
        Inl e \<Rightarrow> Inl e
      | Inr callbacks \<Rightarrow>
     (case get_modules assets b of
        Inl e \<Rightarrow> Inl e
      | Inr mods \<Rightarrow>
          Inr [(''clay_modules'', mods),
               (''clay_callbacks'', join [NL] callbacks),
               (''clay_suites'', join ('','' @ [NL, TAB]) suite_data_r),
               (''clay_suite_count'', str_nat (length suite_data_r)),
               (''clay_callback_count'', str_nat (callback_count b))])))"

definition render_main :: "dialect \<Rightarrow> assets \<Rightarrow> builder \<Rightarrow> error + string" where
  "render_main v assets b =
     (case load_file assets b ''clay.c'' of
        Inl e \<Rightarrow> Inl e
      | Inr template \<Rightarrow>
          (case main_values v assets b of Inl e \<Rightarrow> Inl e | Inr m \<Rightarrow> substitute template m))"

text \<open>
  \<^verbatim>\<open>render\<close>: the files written, in order, and the exception that ended the call, if
  any. \<^verbatim>\<open>open(file, "w")\<close> creates the file before its text is rendered, so a failure
  of the rendering leaves an empty file.
\<close>

definition render ::
  "dialect \<Rightarrow> assets \<Rightarrow> builder \<Rightarrow> (string \<times> string) list \<times> error option" where
  "render v assets b =
     (let main_file = path_join (path b) ''clay_main.c'' in
      case render_main v assets b of
        Inl e \<Rightarrow> ([(main_file, [])], Some e)
      | Inr main_text \<Rightarrow>
          (let header_file = path_join (path b) ''clay.h'' in
           case render_header assets b of
             Inl e \<Rightarrow> ([(main_file, main_text), (header_file, [])], Some e)
           | Inr header_text \<Rightarrow> ([(main_file, main_text), (header_file, header_text)], None)))"

text \<open>The body of the loop of \<^verbatim>\<open>main\<close> for one folder: build, then render. \<open>v\<close> is the
  interpreter and \<open>re\<close> its module \<^verbatim>\<open>re\<close>.\<close>

definition generate ::
  "dialect \<Rightarrow> engine \<Rightarrow> assets \<Rightarrow> string \<Rightarrow> string option \<Rightarrow> string \<Rightarrow> node
     \<Rightarrow> (string \<times> string) list \<times> error option" where
  "generate v re assets p cp print_mode fs =
     (case init re p cp print_mode fs of
        Inl e \<Rightarrow> ([], Some e)
      | Inr b \<Rightarrow> render v assets b)"


section \<open>Notions used in the properties\<close>

text \<open>The strings that one file adds to \<^const>\<open>declarations\<close>: none when it has no
  ordinary callback.\<close>

definition file_decls :: "engine \<Rightarrow> string \<Rightarrow> string \<Rightarrow> string list" where
  "file_decls re n c =
     (case find_tests re n c of
        Inl e \<Rightarrow> []
      | Inr (cbs, ini, cln) \<Rightarrow>
          if cbs = [] then [] else opt_decl ini @ opt_decl cln @ map decl_text cbs)"

text \<open>
  The same, read off the list of matches of the file (each match a triple of
  declaration, symbol and short name; \<open>file_matches\<close> is the list that \<^verbatim>\<open>findall\<close>
  returns for the file, and is empty when the engine raises, which ends the run). The
  ordinary matches are those named neither \<^verbatim>\<open>initialize\<close> nor \<^verbatim>\<open>cleanup\<close>; of the
  matches named \<^verbatim>\<open>initialize\<close> the loop of lines 211 to 223 keeps the last one, and
  likewise for \<^verbatim>\<open>cleanup\<close>. A file adds
  nothing without an ordinary match; otherwise it adds the declaration of its last
  \<^verbatim>\<open>initialize\<close> match, of its last \<^verbatim>\<open>cleanup\<close> match, and of every ordinary match, as
  often as it is matched.
\<close>

definition file_matches :: "engine \<Rightarrow> string \<Rightarrow> string \<Rightarrow> string list list" where
  "file_matches re n c =
     (case re (format_s TEST_FUNC_REGEX n) c of Inl e \<Rightarrow> [] | Inr matches \<Rightarrow> matches)"

definition callback_of :: "string list \<Rightarrow> callback" where
  "callback_of m = \<lparr>short_name = m ! 2, decl_text = m ! 0, symbol = m ! 1\<rparr>"

definition ordinary_matches :: "string list list \<Rightarrow> string list list" where
  "ordinary_matches ms = filter (\<lambda>m. m ! 2 \<noteq> ''initialize'' \<and> m ! 2 \<noteq> ''cleanup'') ms"

definition last_match :: "string \<Rightarrow> string list list \<Rightarrow> callback option" where
  "last_match nm ms =
     (case filter (\<lambda>m. m ! 2 = nm) ms of [] \<Rightarrow> None | x # xs \<Rightarrow> Some (callback_of (last (x # xs))))"

definition matched_decls :: "string list list \<Rightarrow> string list" where
  "matched_decls ms =
     (if ordinary_matches ms = [] then []
      else opt_decl (last_match ''initialize'' ms) @ opt_decl (last_match ''cleanup'' ms)
             @ map (\<lambda>m. m ! 0) (ordinary_matches ms))"

text \<open>What holds of the registry after any number of files: the two dictionaries have
  the same keys in the same order, every suite counts its own callbacks and carries its
  key as name, every callback list is non-empty, sorted and free of lifecycle callbacks,
  and the suite names are the keys.\<close>

definition registry_ok :: "builder \<Rightarrow> bool" where
  "registry_ok b =
     (list_all2 (\<lambda>cd sd. fst cd = fst sd \<and> cb_count (snd sd) = length (snd cd)
                            \<and> name (snd sd) = fst sd)
                (callback_data b) (suite_data b)
      \<and> list_all (\<lambda>cd. snd cd \<noteq> [] \<and> sorted (map short_name (snd cd))
                          \<and> list_all ordinary (snd cd))
                 (callback_data b)
      \<and> set (suite_names b) = fst ` set (suite_data b))"

text \<open>Two directory trees that differ only in the order in which directories list
  their entries.\<close>

inductive reorder :: "node \<Rightarrow> node \<Rightarrow> bool" where
  same: "reorder t t"
| listing: "mset es = mset es' \<Longrightarrow> reorder (Dir es) (Dir es')"
| inside: "reorder e e' \<Longrightarrow> reorder (Dir (xs @ (n, e) # ys)) (Dir (xs @ (n, e') # ys))"
| trans: "reorder a b \<Longrightarrow> reorder b c \<Longrightarrow> reorder a c"

definition files_under :: "string \<Rightarrow> string \<Rightarrow> node \<Rightarrow> (string \<times> string) multiset" where
  "files_under p t e = mset (concat (map (triple_files p) (walk t e)))"

definition own_files :: "string \<Rightarrow> string \<Rightarrow> string \<times> node \<Rightarrow> (string \<times> string) multiset" where
  "own_files p t = (\<lambda>(n, e). case e of Dir _ \<Rightarrow> {#}
        | File c \<Rightarrow> if fnmatch_c n then {#(test_name p t n, c)#} else {#})"

subsection \<open>Example trees\<close>

text \<open>The scenario of the specification: \<^verbatim>\<open>net/tcp.c\<close> with two test functions (here the
  later one in the alphabet comes first in the file).\<close>

definition scenario_text :: string where
  "scenario_text = ''void test_net_tcp__timeout(void){}\<newline>void test_net_tcp__connect(void){}''"

definition scenario_tree :: node where
  "scenario_tree = Dir [(''net'', Dir [(''tcp.c'', File scenario_text)])]"

text \<open>The same file with the two functions in the order in which the scenario lists
  them.\<close>

definition scenario_text_as_listed :: string where
  "scenario_text_as_listed = ''void test_net_tcp__connect(void){}\<newline>void test_net_tcp__timeout(void){}''"

definition scenario_tree_as_listed :: node where
  "scenario_tree_as_listed = Dir [(''net'', Dir [(''tcp.c'', File scenario_text_as_listed)])]"

definition cb_connect :: callback where
  "cb_connect = \<lparr>short_name = ''connect'', decl_text = ''void test_net_tcp__connect(void)'',
                  symbol = ''test_net_tcp__connect''\<rparr>"

definition cb_timeout :: callback where
  "cb_timeout = \<lparr>short_name = ''timeout'', decl_text = ''void test_net_tcp__timeout(void)'',
                  symbol = ''test_net_tcp__timeout''\<rparr>"

definition scenario_suite :: suite where
  "scenario_suite = \<lparr>name = ''net_tcp'', initialize = None, cleanup = None, cb_count = 2\<rparr>"

definition scenario_builder :: "string \<Rightarrow> string option \<Rightarrow> string \<Rightarrow> builder" where
  "scenario_builder p cp print_mode =
     (initial_builder p cp print_mode)
       \<lparr>declarations := [''void test_net_tcp__timeout(void)'', ''void test_net_tcp__connect(void)''],
        suite_names := [''net_tcp''],
        callback_data := [(''net_tcp'', [cb_connect, cb_timeout])],
        suite_data := [(''net_tcp'', scenario_suite)],
        stdout := [''Loading test suites...'', ''  net_tcp (2 tests)'']\<rparr>"

text \<open>Two files whose suite names coincide: \<^verbatim>\<open>a_b.c\<close> and \<^verbatim>\<open>a/b.c\<close> both give
  \<^verbatim>\<open>a_b\<close>. The file at the top is walked first.\<close>

definition collision_first :: string where
  "collision_first = ''void test_a_b__one(void) { }''"

definition collision_second :: string where
  "collision_second = ''void test_a_b__initialize(void) { }\<newline>void test_a_b__two(void) { }''"

definition collision_tree :: node where
  "collision_tree =
     Dir [(''a_b.c'', File collision_first), (''a'', Dir [(''b.c'', File collision_second)])]"

definition cb_one :: callback where
  "cb_one = \<lparr>short_name = ''one'', decl_text = ''void test_a_b__one(void)'',
              symbol = ''test_a_b__one''\<rparr>"

definition cb_two :: callback where
  "cb_two = \<lparr>short_name = ''two'', decl_text = ''void test_a_b__two(void)'',
              symbol = ''test_a_b__two''\<rparr>"

definition cb_init :: callback where
  "cb_init = \<lparr>short_name = ''initialize'', decl_text = ''void test_a_b__initialize(void)'',
               symbol = ''test_a_b__initialize''\<rparr>"

definition collision_builder :: builder where
  "collision_builder =
     (initial_builder ''/proj'' None ''default'')
       \<lparr>declarations := [''void test_a_b__one(void)'', ''void test_a_b__initialize(void)'',
                          ''void test_a_b__two(void)''],
        suite_names := [''a_b'', ''a_b''],
        callback_data := [(''a_b'', [cb_two])],
        suite_data := [(''a_b'', \<lparr>name = ''a_b'', initialize = Some cb_init, cleanup = None,
                                  cb_count = 1\<rparr>)],
        stdout := [''Loading test suites...'', ''  a_b (1 tests)'', ''  a_b (1 tests)'']\<rparr>"

definition collision_block :: string where
  "collision_block =
     ''static const struct clay_func _clay_cb_a_b[] = {\<newline>    {'' @ DQ # ''two'' @ DQ
       # '', &test_a_b__two}\<newline>};''"

definition collision_descriptor :: string where
  "collision_descriptor =
     ''{\<newline>        '' @ DQ # ''a::b'' @ DQ # '',\<newline>        {'' @ DQ # ''initialize'' @ DQ
       # '', &test_a_b__initialize},\<newline>        {NULL, NULL},\<newline>        _clay_cb_a_b, 1\<newline>    }''"

text \<open>One file in which the same function is written in both branches of a
  conditional.\<close>

definition twice_tree :: node where
  "twice_tree =
     Dir [(''s.c'',
       File ''#ifdef X\<newline>void test_s__a(void) {\<newline>#else\<newline>void test_s__a(void) {\<newline>#endif\<newline>}'')]"

text \<open>
  A tree with three test files. \<^verbatim>\<open>util.c\<close> has six matches: two of \<^verbatim>\<open>initialize\<close>
  (written differently), one of \<^verbatim>\<open>cleanup\<close>, and three ordinary ones that are not in
  the order of their names, one function being written twice. \<^verbatim>\<open>core/vec.c\<close> has one
  test, \<^verbatim>\<open>core/only.c\<close> has lifecycle functions only, and \<^verbatim>\<open>core/notes.txt\<close> is no
  test file.
\<close>

definition sample_util :: string where
  "sample_util =
     ''void test_util__zeta(void) {}\<newline>void test_util__initialize(void) {}\<newline>void test_util__alpha(void)\<newline>{\<newline>}\<newline>void test_util__initialize( void ) {}\<newline>void test_util__cleanup(void) {}\<newline>void test_util__alpha(void) {}\<newline>''"

definition sample_vec :: string where
  "sample_vec = ''void test_core_vec__push(void) {}''"

definition sample_only :: string where
  "sample_only = ''void test_core_only__initialize(void) {}\<newline>void test_core_only__cleanup(void) {}''"

definition sample_tree :: node where
  "sample_tree =
     Dir [(''core'', Dir [(''vec.c'', File sample_vec), (''only.c'', File sample_only),
                          (''notes.txt'', File ''void test_core_notes__x(void) {}'')]),
          (''util.c'', File sample_util)]"

definition sample_matches :: "string list list list" where
  "sample_matches =
     [[[''void test_util__zeta(void)'', ''test_util__zeta'', ''zeta''],
       [''void test_util__initialize(void)'', ''test_util__initialize'', ''initialize''],
       [''void test_util__alpha(void)'', ''test_util__alpha'', ''alpha''],
       [''void test_util__initialize( void )'', ''test_util__initialize'', ''initialize''],
       [''void test_util__cleanup(void)'', ''test_util__cleanup'', ''cleanup''],
       [''void test_util__alpha(void)'', ''test_util__alpha'', ''alpha'']],
      [[''void test_core_vec__push(void)'', ''test_core_vec__push'', ''push'']],
      [[''void test_core_only__initialize(void)'', ''test_core_only__initialize'', ''initialize''],
       [''void test_core_only__cleanup(void)'', ''test_core_only__cleanup'', ''cleanup'']]]"

definition cb_alpha :: callback where
  "cb_alpha = \<lparr>short_name = ''alpha'', decl_text = ''void test_util__alpha(void)'',
                symbol = ''test_util__alpha''\<rparr>"

definition cb_zeta :: callback where
  "cb_zeta = \<lparr>short_name = ''zeta'', decl_text = ''void test_util__zeta(void)'',
               symbol = ''test_util__zeta''\<rparr>"

definition cb_push :: callback where
  "cb_push = \<lparr>short_name = ''push'', decl_text = ''void test_core_vec__push(void)'',
               symbol = ''test_core_vec__push''\<rparr>"

definition sample_builder :: builder where
  "sample_builder =
     (initial_builder ''/proj'' None ''default'')
       \<lparr>declarations := [''void test_util__initialize( void )'', ''void test_util__cleanup(void)'',
                          ''void test_util__zeta(void)'', ''void test_util__alpha(void)'',
                          ''void test_util__alpha(void)'', ''void test_core_vec__push(void)''],
        suite_names := [''util'', ''core_vec''],
        callback_data := [(''util'', [cb_alpha, cb_alpha, cb_zeta]), (''core_vec'', [cb_push])],
        suite_data :=
          [(''util'',
            \<lparr>name = ''util'',
             initialize = Some \<lparr>short_name = ''initialize'',
                                 decl_text = ''void test_util__initialize( void )'',
                                 symbol = ''test_util__initialize''\<rparr>,
             cleanup = Some \<lparr>short_name = ''cleanup'', decl_text = ''void test_util__cleanup(void)'',
                              symbol = ''test_util__cleanup''\<rparr>,
             cb_count = 3\<rparr>),
           (''core_vec'', \<lparr>name = ''core_vec'', initialize = None, cleanup = None, cb_count = 1\<rparr>)],
        stdout := [''Loading test suites...'', ''  util (3 tests)'', ''  core_vec (1 tests)'']\<rparr>"

definition sample_header :: string where
  "sample_header =
     ''/* clay.h */\<newline>extern void test_core_vec__push(void);\<newline>extern void test_util__alpha(void);\<newline>extern void test_util__alpha(void);\<newline>extern void test_util__cleanup(void);\<newline>extern void test_util__initialize( void );\<newline>extern void test_util__zeta(void);\<newline>''"

definition sample_util_array :: string where
  "sample_util_array =
     ''static const struct clay_func _clay_cb_util[] = {\<newline>    {'' @ DQ # ''alpha'' @ DQ # '', &test_util__alpha},\<newline>'' @ TAB # ''{'' @ DQ # ''alpha'' @ DQ # '', &test_util__alpha},\<newline>'' @ TAB # ''{'' @ DQ # ''zeta'' @ DQ # '', &test_util__zeta}\<newline>};''"

definition sample_main :: string where
  "sample_main =
     ''/* clay_sandbox.c */\<newline>/* clay_fixtures.c */\<newline>/* clay_fs.c */\<newline>/* clay_print_default.c */\<newline>static const struct clay_func _clay_cb_core_vec[] = {\<newline>    {'' @ DQ # ''push'' @ DQ # '', &test_core_vec__push}\<newline>};\<newline>static const struct clay_func _clay_cb_util[] = {\<newline>    {'' @ DQ # ''alpha'' @ DQ # '', &test_util__alpha},\<newline>'' @ TAB # ''{'' @ DQ # ''alpha'' @ DQ # '', &test_util__alpha},\<newline>'' @ TAB # ''{'' @ DQ # ''zeta'' @ DQ # '', &test_util__zeta}\<newline>};\<newline>suites = {{\<newline>        '' @ DQ # ''core::vec'' @ DQ # '',\<newline>        {NULL, NULL},\<newline>        {NULL, NULL},\<newline>        _clay_cb_core_vec, 1\<newline>    },\<newline>'' @ TAB # ''{\<newline>        '' @ DQ # ''util'' @ DQ # '',\<newline>        {'' @ DQ # ''initialize'' @ DQ # '', &test_util__initialize},\<newline>        {'' @ DQ # ''cleanup'' @ DQ # '', &test_util__cleanup},\<newline>        _clay_cb_util, 3\<newline>    }};\<newline>suite_count = 2; callback_count = 4;''"

text \<open>A tree, and the same tree with the entries of its two directories listed in
  another order.\<close>

definition order_b :: string where
  "order_b = ''void test_b__run(void) {}''"

definition order_a :: string where
  "order_a = ''void test_a__run(void) {}''"

definition order_d_z :: string where
  "order_d_z = ''void test_d_z__cleanup(void) {}\<newline>void test_d_z__run(void) {}''"

definition order_d_a :: string where
  "order_d_a = ''void test_d_a__run(void) {}''"

definition order_tree :: node where
  "order_tree =
     Dir [(''b.c'', File order_b),
          (''d'', Dir [(''z.c'', File order_d_z), (''a.c'', File order_d_a)]),
          (''a.c'', File order_a)]"

definition order_tree_listed_otherwise :: node where
  "order_tree_listed_otherwise =
     Dir [(''a.c'', File order_a),
          (''d'', Dir [(''a.c'', File order_d_a), (''z.c'', File order_d_z)]),
          (''b.c'', File order_b)]"

definition order_header :: string where
  "order_header =
     ''/* clay.h */\<newline>extern void test_a__run(void);\<newline>extern void test_b__run(void);\<newline>extern void test_d_a__run(void);\<newline>extern void test_d_z__cleanup(void);\<newline>extern void test_d_z__run(void);\<newline>''"

text \<open>Three files whose suite names coincide: \<^verbatim>\<open>a_b_c.c\<close>, \<^verbatim>\<open>a/b_c.c\<close> and
  \<^verbatim>\<open>a_b/c.c\<close> all give \<^verbatim>\<open>a_b_c\<close>. The first has lifecycle functions and a test, the
  second a test, the third a lifecycle function only.\<close>

definition replaced_first :: string where
  "replaced_first =
     ''void test_a_b_c__initialize(void) {}\<newline>void test_a_b_c__cleanup(void) {}\<newline>void test_a_b_c__old(void) {}''"

definition replaced_second :: string where
  "replaced_second = ''void test_a_b_c__new(void) {}''"

definition replaced_third :: string where
  "replaced_third = ''void test_a_b_c__initialize( void ) {}''"

definition replaced_tree :: node where
  "replaced_tree =
     Dir [(''a_b_c.c'', File replaced_first),
          (''a'', Dir [(''b_c.c'', File replaced_second)]),
          (''a_b'', Dir [(''c.c'', File replaced_third)])]"

definition cb_old :: callback where
  "cb_old = \<lparr>short_name = ''old'', decl_text = ''void test_a_b_c__old(void)'',
              symbol = ''test_a_b_c__old''\<rparr>"

definition cb_new :: callback where
  "cb_new = \<lparr>short_name = ''new'', decl_text = ''void test_a_b_c__new(void)'',
              symbol = ''test_a_b_c__new''\<rparr>"

definition replaced_builder :: builder where
  "replaced_builder =
     (initial_builder ''/proj'' None ''default'')
       \<lparr>declarations := [''void test_a_b_c__initialize(void)'', ''void test_a_b_c__cleanup(void)'',
                          ''void test_a_b_c__old(void)'', ''void test_a_b_c__new(void)''],
        suite_names := [''a_b_c'', ''a_b_c''],
        callback_data := [(''a_b_c'', [cb_new])],
        suite_data := [(''a_b_c'', \<lparr>name = ''a_b_c'', initialize = None, cleanup = None,
                                    cb_count = 1\<rparr>)],
        stdout := [''Loading test suites...'', ''  a_b_c (1 tests)'', ''  a_b_c (1 tests)'']\<rparr>"

definition replaced_header :: string where
  "replaced_header =
     ''/* clay.h */\<newline>extern void test_a_b_c__cleanup(void);\<newline>extern void test_a_b_c__initialize(void);\<newline>extern void test_a_b_c__new(void);\<newline>extern void test_a_b_c__old(void);\<newline>''"

definition replaced_descriptor :: string where
  "replaced_descriptor =
     ''{\<newline>        '' @ DQ # ''a::b::c'' @ DQ # '',\<newline>        {NULL, NULL},\<newline>        {NULL, NULL},\<newline>        _clay_cb_a_b_c, 1\<newline>    }''"

definition replaced_array :: string where
  "replaced_array =
     ''static const struct clay_func _clay_cb_a_b_c[] = {\<newline>    {'' @ DQ # ''new'' @ DQ # '', &test_a_b_c__new}\<newline>};''"

text \<open>A file with lifecycle functions only.\<close>

definition lifecycle_only :: string where
  "lifecycle_only = ''void test_x__initialize(void) { }\<newline>void test_x__cleanup(void) { }''"

definition example_assets :: assets where
  "example_assets cp filename =
     (if filename = ''clay.h'' then Inr ''/* clay.h */\<newline>${extern_declarations}\<newline>''
      else if filename = ''clay.c'' then
        Inr ''$clay_modules\<newline>$clay_callbacks\<newline>suites = {${clay_suites}};\<newline>suite_count = $clay_suite_count; callback_count = $clay_callback_count;''
      else Inr (''/* '' @ filename @ '' */''))"

subsection \<open>The grammar of the specification\<close>




subsection \<open>The pattern as an expression, and what an expression matches\<close>




text \<open>The character before the position reached after reading \<open>m\<close>.\<close>

definition adv :: "char option \<Rightarrow> string \<Rightarrow> char option" where
  "adv p m = (if m = [] then p else Some (last m))"



definition starts :: "'a list \<Rightarrow> 'a list \<Rightarrow> bool" where
  "starts X l = (\<exists>more. l = X @ more)"


subsection \<open>Suite names that the pattern reads as they are written\<close>



section \<open>Properties\<close>

subsection \<open>Helper facts: strings, templates, dictionaries\<close>

lemma space_NL: "is_space v NL"
  by (simp add: is_space_def)

lemma strip_core:
  "\<not> is_space v a \<Longrightarrow> \<not> is_space v z \<Longrightarrow> strip v (NL # a # mid @ [z, NL]) = a # mid @ [z]"
  by (simp add: strip_def space_NL)

lemmas template_simps =
  substitute.simps prepend_def fmap_def dict_get_def is_id_start_def is_ident_def is_alpha_def
  is_digit_def

lemma render_callbacks_eq:
  "render_callbacks v s cbs =
     Inr (''static const struct clay_func _clay_cb_'' @ s @ ''[] = {\<newline>    ''
          @ join ('','' @ [NL, TAB]) (map render_cb (filter ordinary cbs)) @ ''\<newline>};'')"
proof -
  have "substitute CALLBACKS_TEMPLATE [(''suite_name'', s), (''callbacks'', j)] =
     Inr (NL # ''static const struct clay_func _clay_cb_'' @ s @ ''[] = {\<newline>    ''
          @ j @ ''\<newline>};\<newline>'')" for j
    unfolding CALLBACKS_TEMPLATE_def by (simp add: template_simps)
  then show ?thesis
    unfolding render_callbacks_def
    using strip_core[of v "CHR ''s''" "CHR '';''"
        "''tatic const struct clay_func _clay_cb_'' @ s @ ''[] = {\<newline>    ''
           @ join ('','' @ [NL, TAB]) (map render_cb (filter ordinary cbs)) @ ''\<newline>}''"]
    by (simp add: fmap_def is_space_def)
qed

lemma render_suite_eq:
  "render_suite v su =
     Inr (''{\<newline>        '' @ DQ # replace CHR ''_'' ''::'' (name su) @ DQ # '',\<newline>        ''
          @ render_lifecycle (initialize su) @ '',\<newline>        '' @ render_lifecycle (cleanup su)
          @ '',\<newline>        _clay_cb_'' @ name su @ '', '' @ str_nat (cb_count su) @ ''\<newline>    }'')"
proof -
  have "substitute SUITE_TEMPLATE
          [(''clean_name'', a), (''initialize'', b), (''cleanup'', c), (''cb_ptr'', d),
           (''cb_count'', e)] =
     Inr (NL # ''    {\<newline>        '' @ DQ # a @ DQ # '',\<newline>        ''
          @ b @ '',\<newline>        '' @ c
          @ '',\<newline>        '' @ d @ '', '' @ e @ ''\<newline>    }\<newline>'')" for a b c d e
    unfolding SUITE_TEMPLATE_def by (simp add: template_simps)
  then show ?thesis
    unfolding render_suite_def
    using strip_core[of v "CHR ''{''" "CHR ''}''"
        "''\<newline>        '' @ DQ # replace CHR ''_'' ''::'' (name su) @ DQ # '',\<newline>        ''
          @ render_lifecycle (initialize su) @ '',\<newline>        '' @ render_lifecycle (cleanup su)
          @ '',\<newline>        _clay_cb_'' @ name su @ '', '' @ str_nat (cb_count su) @ ''\<newline>    ''"]
    by (simp add: fmap_def is_space_def strip_def)
qed

lemma sort_key_Nil_iff: "(sort_key f xs = []) = (xs = [])"
  using length_sort[of f xs] by (metis length_0_conv)

lemma sort_mset_cong:
  fixes xs ys :: "'a::linorder list"
  shows "mset xs = mset ys \<Longrightarrow> sort xs = sort ys"
  by (rule properties_for_sort) simp_all

lemma sum_list_mset_cong:
  fixes f :: "'a \<Rightarrow> 'b multiset"
  assumes "mset xs = mset ys"
  shows "sum_list (map f xs) = sum_list (map f ys)"
proof -
  have "mset (map f xs) = mset (map f ys)" using assms by simp
  then have "sum_mset (mset (map f xs)) = sum_mset (mset (map f ys))" by simp
  then show ?thesis by (simp only: sum_mset_sum_list)
qed

lemma update_all2:
  assumes "list_all2 (\<lambda>x y. fst x = fst y \<and> P (snd x) (fst y) (snd y)) xs ys" "P v k w"
  shows "list_all2 (\<lambda>x y. fst x = fst y \<and> P (snd x) (fst y) (snd y))
           (AList.update k v xs) (AList.update k w ys)"
  using assms by (induction xs ys rule: list_all2_induct) auto

lemma update_all:
  assumes "list_all (\<lambda>x. P (snd x)) xs" "P v"
  shows "list_all (\<lambda>x. P (snd x)) (AList.update k v xs)"
  using assms by (induction xs) auto

lemma filter_ordinary_all: "list_all ordinary cbs \<Longrightarrow> filter ordinary cbs = cbs"
  by (induction cbs) auto

lemma str_nat_1: "str_nat (Suc 0) = ''1''"
  by code_simp

lemma str_nat_2: "str_nat (Suc (Suc 0)) = ''2''"
proof -
  have "str_nat 2 = ''2''" by code_simp
  then show ?thesis by (simp add: numeral_2_eq_2)
qed

subsection \<open>One file, and a sequence of files\<close>

lemma classify_ordinary:
  "classify ms (cbs, i, c) = Inr (cbs', i', c') \<Longrightarrow> list_all ordinary cbs
     \<Longrightarrow> list_all ordinary cbs'"
proof (induction ms arbitrary: cbs i c)
  case Nil
  then show ?case by simp
next
  case (Cons m ms)
  then show ?case
    by (auto simp: Let_def ordinary_def split: list.splits if_splits)
qed

lemma find_tests_ordinary: "find_tests re s t = Inr (cbs, i, c) \<Longrightarrow> list_all ordinary cbs"
  unfolding find_tests_def by (auto split: sum.splits dest: classify_ordinary)

lemma process_test_file_cases:
  assumes "process_test_file re s t b = Inr b'"
  obtains (skip) i c where "find_tests re s t = Inr ([], i, c)" "b' = b"
  | (add) cbs i c where "find_tests re s t = Inr (cbs, i, c)" "cbs \<noteq> []"
      "b' = b\<lparr>declarations := declarations b @ opt_decl i @ opt_decl c @ map decl_text cbs,
              callback_data := AList.update s (sort_key short_name cbs) (callback_data b),
              suite_data :=
                AList.update s \<lparr>name = s, initialize = i, cleanup = c, cb_count = length cbs\<rparr>
                  (suite_data b),
              suite_names := suite_names b @ [s],
              stdout := stdout b @ [''  '' @ s @ '' ('' @ str_nat (length cbs) @ '' tests)'']\<rparr>"
  using assms unfolding process_test_file_def
  by (auto simp: Let_def split: sum.splits prod.splits if_splits)

lemma process_test_file_total:
  "find_tests re n c = Inr r \<Longrightarrow> \<exists>b'. process_test_file re n c b = Inr b'"
  by (cases r) (auto simp: process_test_file_def Let_def)

lemma process_test_file_add:
  assumes "process_test_file re s t b = Inr b'" "find_tests re s t = Inr (cbs, i, c)" "cbs \<noteq> []"
  shows "map_of (callback_data b') s = Some (sort_key short_name cbs)"
    and "map_of (suite_data b') s
           = Some \<lparr>name = s, initialize = i, cleanup = c, cb_count = length cbs\<rparr>"
  using assms by (auto simp: process_test_file_def Let_def update_conv')

lemma process_test_file_other:
  "process_test_file re n t b = Inr b' \<Longrightarrow> n \<noteq> s \<Longrightarrow>
     map_of (callback_data b') s = map_of (callback_data b) s
     \<and> map_of (suite_data b') s = map_of (suite_data b) s"
  by (erule process_test_file_cases) (auto simp: update_conv')

lemma process_test_file_declarations:
  "process_test_file re s t b = Inr b' \<Longrightarrow> declarations b' = declarations b @ file_decls re s t"
  by (erule process_test_file_cases) (simp_all add: file_decls_def)

lemma process_test_file_clay_path:
  "process_test_file re n c b = Inr b' \<Longrightarrow> clay_path b' = clay_path b"
  by (erule process_test_file_cases) auto

lemma process_test_file_callback_data:
  assumes "process_test_file re n t b = Inr b'" "map_of (callback_data b') s = Some cbs"
  shows "map_of (callback_data b) s = Some cbs
         \<or> (n = s \<and> (\<exists>cbs0 i c. find_tests re s t = Inr (cbs0, i, c) \<and> cbs0 \<noteq> []
                        \<and> cbs = sort_key short_name cbs0))"
  using assms(1)
proof (cases rule: process_test_file_cases)
  case (skip i c)
  then show ?thesis using assms(2) by simp
next
  case (add cbs0 i c)
  then show ?thesis using assms(2)
    by (cases "n = s") (auto simp: update_conv')
qed

lemma registry_ok_step:
  assumes "process_test_file re s t b = Inr b'" "registry_ok b"
  shows "registry_ok b'"
  using assms(1)
proof (cases rule: process_test_file_cases)
  case (skip i c)
  then show ?thesis using assms(2) by simp
next
  case (add cbs i c)
  have o: "list_all ordinary cbs" using add(1) by (rule find_tests_ordinary)
  have 1: "list_all2 (\<lambda>cd sd. fst cd = fst sd
               \<and> (cb_count (snd sd) = length (snd cd) \<and> name (snd sd) = fst sd))
             (callback_data b') (suite_data b')"
    using assms(2) unfolding registry_ok_def add(3)
    by (simp add: update_all2[where P="\<lambda>cbs k su. cb_count su = length cbs \<and> name su = k"])
  let ?P = "\<lambda>cbs. cbs \<noteq> [] \<and> sorted (map short_name cbs) \<and> list_all ordinary cbs"
  have p: "?P (sort_key short_name cbs)"
    using add(2) o by (simp add: list_all_iff sort_key_Nil_iff)
  have "list_all (\<lambda>cd. ?P (snd cd)) (callback_data b)"
    using assms(2) unfolding registry_ok_def by simp
  then have "list_all (\<lambda>cd. ?P (snd cd))
               (AList.update s (sort_key short_name cbs) (callback_data b))"
    using p by (rule update_all)
  then have 2: "list_all (\<lambda>cd. ?P (snd cd)) (callback_data b')"
    unfolding add(3) by simp
  have 3: "set (suite_names b') = fst ` set (suite_data b')"
    using assms(2) unfolding registry_ok_def add(3) by (simp add: dom_update)
  show ?thesis unfolding registry_ok_def using 1 2 3 by simp
qed

lemma process_all_Cons:
  assumes "process_all re ((n, c) # fs) b = Inr b'"
  obtains b1 where "process_test_file re n c b = Inr b1" "process_all re fs b1 = Inr b'"
  using assms by (auto split: sum.splits)

lemma process_all_append:
  "process_all re (xs @ ys) b =
     (case process_all re xs b of Inl e \<Rightarrow> Inl e | Inr b1 \<Rightarrow> process_all re ys b1)"
  by (induction xs arbitrary: b) (auto split: sum.splits)

lemma process_all_induct [consumes 1, case_names Nil Cons]:
  assumes "process_all re fs b = Inr b'"
    and "\<And>b. P [] b b"
    and "\<And>n c fs b b1 b'. process_test_file re n c b = Inr b1 \<Longrightarrow> process_all re fs b1 = Inr b'
           \<Longrightarrow> P fs b1 b' \<Longrightarrow> P ((n, c) # fs) b b'"
  shows "P fs b b'"
  using assms(1)
proof (induction fs arbitrary: b)
  case Nil
  then show ?case using assms(2) by simp
next
  case (Cons f fs)
  obtain n c where f: "f = (n, c)" by (cases f)
  from Cons.prems obtain b1 where 1: "process_test_file re n c b = Inr b1"
    and 2: "process_all re fs b1 = Inr b'"
    unfolding f by (rule process_all_Cons)
  show ?case unfolding f using 1 2 Cons.IH[OF 2] by (rule assms(3))
qed

lemma registry_ok_all: "process_all re fs b = Inr b' \<Longrightarrow> registry_ok b \<Longrightarrow> registry_ok b'"
  by (induction rule: process_all_induct) (auto intro: registry_ok_step)

lemma process_all_declarations:
  "process_all re fs b = Inr b' \<Longrightarrow>
     declarations b' = declarations b @ concat (map (\<lambda>(n, c). file_decls re n c) fs)"
  by (induction rule: process_all_induct) (auto dest: process_test_file_declarations)

lemma process_all_clay_path: "process_all re fs b = Inr b' \<Longrightarrow> clay_path b' = clay_path b"
  by (induction rule: process_all_induct) (auto dest: process_test_file_clay_path)

lemma process_all_other:
  "process_all re fs b = Inr b' \<Longrightarrow> s \<notin> fst ` set fs \<Longrightarrow>
     map_of (callback_data b') s = map_of (callback_data b) s
     \<and> map_of (suite_data b') s = map_of (suite_data b) s"
proof (induction rule: process_all_induct)
  case (Nil b)
  then show ?case by simp
next
  case (Cons n c fs b b1 b')
  then have "n \<noteq> s" "s \<notin> fst ` set fs" by auto
  then show ?case
    using Cons.IH process_test_file_other[OF Cons.hyps(1)] by simp
qed

lemma process_all_callback_data:
  "process_all re fs b = Inr b' \<Longrightarrow> map_of (callback_data b') s = Some cbs \<Longrightarrow>
     map_of (callback_data b) s = Some cbs
     \<or> (\<exists>t cbs0 i c. (s, t) \<in> set fs \<and> find_tests re s t = Inr (cbs0, i, c) \<and> cbs0 \<noteq> []
            \<and> cbs = sort_key short_name cbs0)"
proof (induction rule: process_all_induct)
  case (Nil b)
  then show ?case by simp
next
  case (Cons n t fs b b1 b')
  from Cons.IH[OF Cons.prems] show ?case
  proof
    assume "map_of (callback_data b1) s = Some cbs"
    from process_test_file_callback_data[OF Cons.hyps(1) this] show ?thesis
      by auto
  next
    assume "\<exists>t cbs0 i c. (s, t) \<in> set fs \<and> find_tests re s t = Inr (cbs0, i, c) \<and> cbs0 \<noteq> []
            \<and> cbs = sort_key short_name cbs0"
    then show ?thesis by auto
  qed
qed

lemma find_tests_success:
  "process_all re fs b = Inr b' \<Longrightarrow> (n, c) \<in> set fs \<Longrightarrow> \<exists>r. find_tests re n c = Inr r"
proof (induction rule: process_all_induct)
  case (Nil b)
  then show ?case by simp
next
  case (Cons n' c' fs b b1 b')
  from Cons.hyps(1) have "\<exists>r. find_tests re n' c' = Inr r"
    by (rule process_test_file_cases) auto
  then show ?case using Cons.IH Cons.prems by auto
qed

lemma process_all_total:
  "(\<And>n c. (n, c) \<in> set fs \<Longrightarrow> \<exists>r. find_tests re n c = Inr r) \<Longrightarrow> \<exists>b'. process_all re fs b = Inr b'"
proof (induction fs arbitrary: b)
  case Nil
  then show ?case by simp
next
  case (Cons f fs)
  obtain n c where f: "f = (n, c)" by (cases f)
  obtain r where "find_tests re n c = Inr r" using Cons.prems[of n c] f by auto
  then obtain b1 where 1: "process_test_file re n c b = Inr b1"
    using process_test_file_total by blast
  obtain b' where "process_all re fs b1 = Inr b'" using Cons.IH[of b1] Cons.prems by auto
  then show ?case using 1 f by auto
qed

lemma process_all_suite_data:
  "process_all re fs b = Inr b' \<Longrightarrow>
     (suite_data b' \<noteq> []) = (suite_data b \<noteq> [] \<or> (\<exists>(n, c) \<in> set fs. file_decls re n c \<noteq> []))"
proof (induction rule: process_all_induct)
  case (Nil b)
  then show ?case by simp
next
  case (Cons n c fs b b1 b')
  from Cons.hyps(1) have "(suite_data b1 \<noteq> []) = (suite_data b \<noteq> [] \<or> file_decls re n c \<noteq> [])"
    by (rule process_test_file_cases) (auto simp: file_decls_def)
  then show ?case using Cons.IH by auto
qed

subsection \<open>The whole walk\<close>

lemma init_cases:
  assumes "init re p cp pm fs = Inr b"
  shows "process_all re (suite_files p fs) (initial_builder p cp pm) = Inr b" "suite_data b \<noteq> []"
  using assms unfolding init_def by (auto split: sum.splits if_splits)

lemma registry_ok_init: "init re p cp pm fs = Inr b \<Longrightarrow> registry_ok b"
  by (drule init_cases(1), erule registry_ok_all) (simp add: registry_ok_def initial_builder_def)

lemma init_declarations:
  "init re p cp pm fs = Inr b \<Longrightarrow>
     declarations b = concat (map (\<lambda>(n, c). file_decls re n c) (suite_files p fs))"
  by (drule init_cases(1), drule process_all_declarations) (simp add: initial_builder_def)

lemma init_clay_path: "init re p cp pm fs = Inr b \<Longrightarrow> clay_path b = cp"
  by (drule init_cases(1), drule process_all_clay_path) (simp add: initial_builder_def)

lemma callback_count_eq:
  assumes "registry_ok b"
  shows "callback_count b = sum_list (map (\<lambda>(s, su). cb_count su) (suite_data b))"
proof -
  have "list_all2 (\<lambda>cd sd. cb_count (snd sd) = length (snd cd)) (callback_data b) (suite_data b)"
    using assms unfolding registry_ok_def by (auto elim: list_all2_mono)
  then have "sum_list (map (\<lambda>cd. length (snd cd)) (callback_data b))
               = sum_list (map (\<lambda>sd. cb_count (snd sd)) (suite_data b))"
    by (induction rule: list_all2_induct) auto
  then show ?thesis
    by (simp add: callback_count_def comp_def split_def)
qed

lemma test_name_sub:
  assumes "d \<noteq> []" "CHR ''/'' \<notin> set d"
  shows "test_name p (path_join p d) f = d @ ''_'' @ take (length f - 2) f"
proof -
  have sp: "split CHR ''/'' d = [d]" using assms(2)
    by (induction d) auto
  have "filter (\<lambda>c. c \<noteq> []) (split CHR ''/'' (drop (length p) (path_join p d))) = [d]"
    using assms sp by (cases d) (auto simp: path_join_def)
  then show ?thesis by (simp add: test_name_def)
qed

lemma test_name_top: "test_name p p f = take (length f - 2) f"
  by (simp add: test_name_def)

subsection \<open>Reordered listings\<close>

lemma suite_files_under: "mset (suite_files p fs) = files_under p p fs"
  by (simp add: suite_files_def files_under_def)

lemma walk_sub: "(case e of Dir _ \<Rightarrow> walk t e | File _ \<Rightarrow> []) = walk t e"
  by (cases e) simp_all

lemma own_files_sum:
  "mset (triple_files p (t, dirs_of es, files_of es)) = sum_list (map (own_files p t) es)"
  by (induction es) (auto simp: triple_files_def files_of_def own_files_def split: node.splits)

lemma files_under_Dir:
  "files_under p t (Dir es) =
     sum_list (map (own_files p t) es)
       + sum_list (map (\<lambda>(n, e). files_under p (path_join t n) e) es)"
proof -
  have "concat (map (triple_files p)
          (concat (map (\<lambda>(n, e). case e of Dir _ \<Rightarrow> walk (path_join t n) e | File _ \<Rightarrow> []) es)))
        = concat (map (\<lambda>(n, e). concat (map (triple_files p) (walk (path_join t n) e))) es)"
    by (induction es) (auto simp: walk_sub)
  then show ?thesis
    by (simp add: files_under_def own_files_sum mset_concat comp_def split_def)
qed

lemma reorder_kind: "reorder a b \<Longrightarrow> (a = File c) = (b = File c)"
  by (induction rule: reorder.induct) auto

lemma reorder_files_under: "reorder a b \<Longrightarrow> files_under p t a = files_under p t b"
proof (induction arbitrary: t rule: reorder.induct)
  case (same t)
  then show ?case by simp
next
  case (listing es es')
  have a: "sum_list (map (own_files p t) es) = sum_list (map (own_files p t) es')"
    using listing by (rule sum_list_mset_cong)
  have b: "sum_list (map (\<lambda>(n, e). files_under p (path_join t n) e) es)
             = sum_list (map (\<lambda>(n, e). files_under p (path_join t n) e) es')"
    using listing by (rule sum_list_mset_cong)
  show ?case
    by (simp only: files_under_Dir a b)
next
  case (inside e e' xs n ys)
  have "own_files p t (n, e) = own_files p t (n, e')"
  proof (cases e)
    case (File c)
    then have "e' = File c"
      using reorder_kind[OF inside.hyps, of c] by simp
    then show ?thesis using File by simp
  next
    case (Dir es)
    have "\<exists>es'. e' = Dir es'"
    proof (cases e')
      case (File c)
      then have "e = File c"
        using reorder_kind[OF inside.hyps, of c] by simp
      then show ?thesis using Dir by simp
    qed simp
    then show ?thesis using Dir by (auto simp: own_files_def)
  qed
  then show ?case
    unfolding files_under_Dir using inside.IH by simp
next
  case (trans a b c)
  then show ?case by simp
qed


subsection \<open>The matches of one file\<close>

lemma last_match_Cons:
  "last_match nm (m # ms) =
     (case last_match nm ms of
        Some x \<Rightarrow> Some x
      | None \<Rightarrow> if m ! 2 = nm then Some (callback_of m) else None)"
  by (simp add: last_match_def split: list.splits)

lemma last_match_Nil: "last_match nm [] = None"
  by (simp add: last_match_def)

lemma classify_eq:
  "classify ms (cbs, i, c) = Inr (cbs', i', c') \<Longrightarrow>
     list_all (\<lambda>m. length m = 3) ms
     \<and> cbs' = cbs @ map callback_of (ordinary_matches ms)
     \<and> i' = (case last_match ''initialize'' ms of None \<Rightarrow> i | Some x \<Rightarrow> Some x)
     \<and> c' = (case last_match ''cleanup'' ms of None \<Rightarrow> c | Some x \<Rightarrow> Some x)"
proof (induction ms arbitrary: cbs i c)
  case Nil
  then show ?case by (simp add: ordinary_matches_def last_match_Nil)
next
  case (Cons m ms)
  from Cons.prems obtain d sy n where m: "m = [d, sy, n]"
    by (auto split: list.splits)
  let ?data = "\<lparr>short_name = n, decl_text = d, symbol = sy\<rparr>"
  have cb: "callback_of m = ?data" by (simp add: m callback_of_def)
  have n: "m ! 2 = n" by (simp add: m)
  show ?case
  proof (cases "n = ''initialize''")
    case True
    then have "classify ms (cbs, Some ?data, c) = Inr (cbs', i', c')"
      using Cons.prems by (simp add: m)
    from Cons.IH[OF this] show ?thesis
      using True cb n
      by (auto simp: m last_match_Cons ordinary_matches_def split: option.splits)
  next
    case False
    note ni = False
    show ?thesis
    proof (cases "n = ''cleanup''")
      case True
      then have "classify ms (cbs, i, Some ?data) = Inr (cbs', i', c')"
        using Cons.prems by (simp add: m)
      from Cons.IH[OF this] show ?thesis
        using True cb n
        by (auto simp: m last_match_Cons ordinary_matches_def split: option.splits)
    next
      case False
      then have "classify ms (cbs @ [?data], i, c) = Inr (cbs', i', c')"
        using Cons.prems ni by (simp add: m)
      from Cons.IH[OF this] show ?thesis
        using False ni cb n
        by (auto simp: m last_match_Cons ordinary_matches_def split: option.splits)
    qed
  qed
qed

lemma find_tests_matches:
  assumes "find_tests re s t = Inr (cbs, i, c)"
  shows "\<exists>ms. re (format_s TEST_FUNC_REGEX s) t = Inr ms \<and> list_all (\<lambda>m. length m = 3) ms
           \<and> cbs = map callback_of (ordinary_matches ms)
           \<and> i = last_match ''initialize'' ms \<and> c = last_match ''cleanup'' ms"
proof -
  from assms obtain ms where r: "re (format_s TEST_FUNC_REGEX s) t = Inr ms"
    and k: "classify ms ([], None, None) = Inr (cbs, i, c)"
    unfolding find_tests_def by (auto split: sum.splits)
  from classify_eq[OF k] show ?thesis
    using r by (auto split: option.splits)
qed

lemma find_tests_file_matches:
  assumes "find_tests re s t = Inr (cbs, i, c)"
  shows "re (format_s TEST_FUNC_REGEX s) t = Inr (file_matches re s t)"
    and "list_all (\<lambda>m. length m = 3) (file_matches re s t)"
    and "cbs = map callback_of (ordinary_matches (file_matches re s t))"
    and "i = last_match ''initialize'' (file_matches re s t)"
    and "c = last_match ''cleanup'' (file_matches re s t)"
  using find_tests_matches[OF assms] by (auto simp: file_matches_def)

lemma file_decls_eq:
  assumes "find_tests re s t = Inr r"
  shows "file_decls re s t = matched_decls (file_matches re s t)"
proof -
  obtain cbs i c where r: "r = (cbs, i, c)" by (cases r)
  note m = find_tests_file_matches[OF assms[unfolded r]]
  show ?thesis
    using assms unfolding r
    by (simp add: file_decls_def matched_decls_def m(3)[symmetric] m(4)[symmetric] m(5)[symmetric])
      (simp add: m(3) comp_def callback_of_def)
qed

subsection \<open>The entry of a suite name, and the blocks of the main text\<close>

lemma process_all_entry:
  assumes "process_all re fs b = Inr b'"
  shows "(\<exists>t cbs i c. (s, t) \<in> set fs \<and> find_tests re s t = Inr (cbs, i, c) \<and> cbs \<noteq> []
            \<and> map_of (callback_data b') s = Some (sort_key short_name cbs)
            \<and> map_of (suite_data b') s
                = Some \<lparr>name = s, initialize = i, cleanup = c, cb_count = length cbs\<rparr>)
       \<or> ((\<forall>t cbs i c. (s, t) \<in> set fs \<longrightarrow> find_tests re s t = Inr (cbs, i, c) \<longrightarrow> cbs = [])
            \<and> map_of (callback_data b') s = map_of (callback_data b) s
            \<and> map_of (suite_data b') s = map_of (suite_data b) s)"
  using assms
proof (induction rule: process_all_induct)
  case (Nil b)
  then show ?case by simp
next
  case (Cons n c fs b b1 b')
  from Cons.IH show ?case
  proof
    assume "\<exists>t cbs i c. (s, t) \<in> set fs \<and> find_tests re s t = Inr (cbs, i, c) \<and> cbs \<noteq> []
            \<and> map_of (callback_data b') s = Some (sort_key short_name cbs)
            \<and> map_of (suite_data b') s
                = Some \<lparr>name = s, initialize = i, cleanup = c, cb_count = length cbs\<rparr>"
    then show ?thesis by auto
  next
    assume u: "(\<forall>t cbs i c. (s, t) \<in> set fs \<longrightarrow> find_tests re s t = Inr (cbs, i, c) \<longrightarrow> cbs = [])
            \<and> map_of (callback_data b') s = map_of (callback_data b1) s
            \<and> map_of (suite_data b') s = map_of (suite_data b1) s"
    from Cons.hyps(1) show ?thesis
    proof (cases rule: process_test_file_cases)
      case (skip i0 c0)
      then show ?thesis using u by auto
    next
      case (add cbs0 i0 c0)
      show ?thesis
      proof (cases "n = s")
        case True
        have "map_of (callback_data b1) s = Some (sort_key short_name cbs0)"
          "map_of (suite_data b1) s
             = Some \<lparr>name = s, initialize = i0, cleanup = c0, cb_count = length cbs0\<rparr>"
          using process_test_file_add[OF Cons.hyps(1) add(1,2)] True by simp_all
        then show ?thesis
          using u add(1,2) True by (intro disjI1 exI[of _ c] exI[of _ cbs0] exI[of _ i0] exI[of _ c0]) simp
      next
        case False
        then show ?thesis
          using u process_test_file_other[OF Cons.hyps(1) False] by auto
      qed
    qed
  qed
qed

lemma traverse_ok: "(\<And>x. x \<in> set xs \<Longrightarrow> f x = Inr (g x)) \<Longrightarrow> traverse f xs = Inr (map g xs)"
  by (induction xs) simp_all

lemma list_all2_memD:
  "list_all2 P xs ys \<Longrightarrow> x \<in> set xs \<Longrightarrow> \<exists>y \<in> set ys. P x y"
  by (induction rule: list_all2_induct) auto

lemma registry_keys:
  assumes "registry_ok b"
  shows "map fst (callback_data b) = map fst (suite_data b)"
proof -
  have "list_all2 (\<lambda>cd sd. fst cd = fst sd) (callback_data b) (suite_data b)"
    using assms unfolding registry_ok_def by (auto elim: list_all2_mono)
  then show ?thesis by (induction rule: list_all2_induct) auto
qed

lemma map_of_key: "k \<in> fst ` set xs \<Longrightarrow> \<exists>y. map_of xs k = Some y"
  by (cases "map_of xs k") (auto simp: map_of_eq_None_iff)

lemma rendered_suites_ok:
  assumes "registry_ok b"
  shows "\<exists>blocks. rendered_suites v b = Inr blocks
           \<and> list_all2 (\<lambda>n blk. \<exists>su. map_of (suite_data b) n = Some su \<and> render_suite v su = Inr blk)
               (sort (suite_names b)) blocks"
proof -
  let ?text = "\<lambda>su. ''{\<newline>        '' @ DQ # replace CHR ''_'' ''::'' (name su) @ DQ # '',\<newline>        ''
          @ render_lifecycle (initialize su) @ '',\<newline>        '' @ render_lifecycle (cleanup su)
          @ '',\<newline>        _clay_cb_'' @ name su @ '', '' @ str_nat (cb_count su) @ ''\<newline>    }''"
  let ?g = "\<lambda>n. ?text (the (map_of (suite_data b) n))"
  have k: "\<exists>su. map_of (suite_data b) n = Some su" if "n \<in> set (sort (suite_names b))" for n
    using that assms unfolding registry_ok_def by (intro map_of_key) simp
  have "traverse (\<lambda>s. case dict_get (suite_data b) s of Inl e \<Rightarrow> Inl e | Inr su \<Rightarrow> render_suite v su)
          (sort (suite_names b)) = Inr (map ?g (sort (suite_names b)))"
  proof (rule traverse_ok)
    fix n assume "n \<in> set (sort (suite_names b))"
    from k[OF this] obtain su where "map_of (suite_data b) n = Some su" ..
    then show "(case dict_get (suite_data b) n of Inl e \<Rightarrow> Inl e | Inr su \<Rightarrow> render_suite v su)
                 = Inr (?g n)"
      by (simp add: dict_get_def render_suite_eq)
  qed
  then have r: "rendered_suites v b = Inr (map ?g (sort (suite_names b)))"
    by (simp add: rendered_suites_def)
  have "list_all2 (\<lambda>n blk. \<exists>su. map_of (suite_data b) n = Some su \<and> render_suite v su = Inr blk)
               (sort (suite_names b)) (map ?g (sort (suite_names b)))"
    unfolding list_all2_map2
  proof (rule list_all2_same[THEN iffD2], rule ballI)
    fix n assume "n \<in> set (sort (suite_names b))"
    from k[OF this] obtain su where "map_of (suite_data b) n = Some su" ..
    then show "\<exists>su. map_of (suite_data b) n = Some su \<and> render_suite v su = Inr (?g n)"
      by (simp add: render_suite_eq)
  qed
  then show ?thesis using r by blast
qed

lemma rendered_callbacks_ok:
  assumes "registry_ok b"
  shows "\<exists>arrays. rendered_callbacks v b = Inr arrays
           \<and> list_all2 (\<lambda>n blk. \<exists>cbs. map_of (callback_data b) n = Some cbs
                                    \<and> render_callbacks v n cbs = Inr blk)
               (sort (suite_names b)) arrays"
proof -
  let ?text = "\<lambda>n cbs. ''static const struct clay_func _clay_cb_'' @ n @ ''[] = {\<newline>    ''
          @ join ('','' @ [NL, TAB]) (map render_cb (filter ordinary cbs)) @ ''\<newline>};''"
  let ?g = "\<lambda>n. ?text n (the (map_of (callback_data b) n))"
  have "set (suite_names b) = set (map fst (callback_data b))"
    using assms registry_keys[OF assms] unfolding registry_ok_def by simp
  then have k: "\<exists>cbs. map_of (callback_data b) n = Some cbs" if "n \<in> set (sort (suite_names b))" for n
    using that by (intro map_of_key) simp
  have "traverse (\<lambda>s. case dict_get (callback_data b) s of
                      Inl e \<Rightarrow> Inl e
                    | Inr cbs \<Rightarrow> render_callbacks v s cbs)
          (sort (suite_names b)) = Inr (map ?g (sort (suite_names b)))"
  proof (rule traverse_ok)
    fix n assume "n \<in> set (sort (suite_names b))"
    from k[OF this] obtain cbs where "map_of (callback_data b) n = Some cbs" ..
    then show "(case dict_get (callback_data b) n of Inl e \<Rightarrow> Inl e
                  | Inr cbs \<Rightarrow> render_callbacks v n cbs) = Inr (?g n)"
      by (simp add: dict_get_def render_callbacks_eq)
  qed
  then have r: "rendered_callbacks v b = Inr (map ?g (sort (suite_names b)))"
    by (simp add: rendered_callbacks_def)
  have "list_all2 (\<lambda>n blk. \<exists>cbs. map_of (callback_data b) n = Some cbs
                                    \<and> render_callbacks v n cbs = Inr blk)
               (sort (suite_names b)) (map ?g (sort (suite_names b)))"
    unfolding list_all2_map2
  proof (rule list_all2_same[THEN iffD2], rule ballI)
    fix n assume "n \<in> set (sort (suite_names b))"
    from k[OF this] obtain cbs where "map_of (callback_data b) n = Some cbs" ..
    then show "\<exists>cbs. map_of (callback_data b) n = Some cbs \<and> render_callbacks v n cbs = Inr (?g n)"
      by (simp add: render_callbacks_eq)
  qed
  then show ?thesis using r by blast
qed

subsection \<open>The lines of the header text\<close>

lemma prepend_prepend: "prepend a (prepend b r) = prepend (a @ b) r"
  by (cases r) (simp_all add: prepend_def)

lemma substitute_plain:
  "CHR ''$'' \<notin> set A \<Longrightarrow> substitute (A @ r) m = prepend A (substitute r m)"
proof (induction A)
  case Nil
  show ?case by (cases "substitute r m") (simp_all add: prepend_def)
next
  case (Cons a A)
  then have a: "a \<noteq> CHR ''$''" and A: "CHR ''$'' \<notin> set A" by auto
  have "substitute (a # (A @ r)) m = prepend [a] (substitute (A @ r) m)"
    using a by (subst substitute.simps) simp
  then show ?case using Cons.IH[OF A] by (simp add: prepend_prepend)
qed

lemma substitute_extern:
  "substitute (''${extern_declarations}'' @ B) [(''extern_declarations'', x)]
     = prepend x (substitute B [(''extern_declarations'', x)])"
  by (simp add: template_simps)

lemma join_contains: "l \<in> set ls \<Longrightarrow> \<exists>u w. join sep ls = u @ l @ w"
proof (induction sep ls rule: join.induct)
  case (1 sep)
  then show ?case by simp
next
  case (2 sep x)
  then show ?case by (auto intro: exI[of _ "[]"])
next
  case (3 sep x y ys)
  show ?case
  proof (cases "l = x")
    case True
    then show ?thesis
      by (intro exI[of _ "[]"] exI[of _ "sep @ join sep (y # ys)"]) simp
  next
    case False
    then have "l \<in> set (y # ys)" using 3(2) by simp
    from 3(1)[OF this] obtain u w where "join sep (y # ys) = u @ l @ w" by blast
    then show ?thesis
      by (intro exI[of _ "x @ sep @ u"] exI[of _ w]) simp
  qed
qed

lemma header_text:
  assumes "assets (clay_path b) ''clay.h'' = Inr (A @ ''${extern_declarations}'' @ B)"
    and "CHR ''$'' \<notin> set A"
    and "render_header assets b = Inr header"
  shows "\<exists>B'. header = A @ join [NL] (extern_lines b) @ B'"
proof -
  let ?x = "join [NL] (extern_lines b)"
  let ?m = "[(''extern_declarations'', ?x)]"
  have "render_header assets b = substitute (A @ ''${extern_declarations}'' @ B) ?m"
    by (simp only: render_header_def load_file_def assms(1) sum.case)
  also have "\<dots> = prepend A (substitute (''${extern_declarations}'' @ B) ?m)"
    using assms(2) by (rule substitute_plain)
  also have "\<dots> = prepend A (prepend ?x (substitute B ?m))"
    by (simp only: substitute_extern)
  finally have "render_header assets b = prepend (A @ ?x) (substitute B ?m)"
    by (simp only: prepend_prepend)
  then obtain B' where "header = (A @ ?x) @ B'"
    using assms(3) by (auto simp: prepend_def split: sum.splits)
  then show ?thesis by simp
qed

lemma header_contains:
  assumes "assets (clay_path b) ''clay.h'' = Inr (A @ ''${extern_declarations}'' @ B)"
    and "CHR ''$'' \<notin> set A"
    and "render_header assets b = Inr header"
    and "l \<in> set (extern_lines b)"
  shows "\<exists>u w. header = u @ l @ w"
proof -
  from header_text[OF assms(1,2,3)] obtain B' where
    h: "header = A @ join [NL] (extern_lines b) @ B'" ..
  from join_contains[OF assms(4), of "[NL]"] obtain u w where
    "join [NL] (extern_lines b) = u @ l @ w" by blast
  then have "header = (A @ u) @ l @ (w @ B')"
    unfolding h by simp
  then show ?thesis by blast
qed

subsection \<open>The example trees, evaluated\<close>

lemma scenario_files: "suite_files p scenario_tree = [(''net_tcp'', scenario_text)]"
  by (simp add: suite_files_def triple_files_def scenario_tree_def files_of_def dirs_of_def
      fnmatch_c_def test_name_sub)

lemma scenario_found:
  "find_tests (py_findall v) ''net_tcp'' scenario_text = Inr ([cb_timeout, cb_connect], None, None)"
  by (induct v; code_simp)

lemma scenario_sorted: "sort_key short_name [cb_timeout, cb_connect] = [cb_connect, cb_timeout]"
  by code_simp

lemma scenario_init: "init (py_findall v) p cp pm scenario_tree = Inr (scenario_builder p cp pm)"
  unfolding init_def scenario_files
  by (simp add: process_test_file_def scenario_found
      scenario_sorted[unfolded cb_timeout_def cb_connect_def] str_nat_2
      scenario_builder_def scenario_suite_def initial_builder_def opt_decl_def cb_timeout_def
      cb_connect_def del: sort_key_simps)

lemma scenario_as_listed_files:
  "suite_files p scenario_tree_as_listed = [(''net_tcp'', scenario_text_as_listed)]"
  by (simp add: suite_files_def triple_files_def scenario_tree_as_listed_def files_of_def
      dirs_of_def fnmatch_c_def test_name_sub)

lemma scenario_as_listed_found:
  "find_tests (py_findall v) ''net_tcp'' scenario_text_as_listed
     = Inr ([cb_connect, cb_timeout], None, None)"
  by (induct v; code_simp)

lemma scenario_as_listed_sorted:
  "sort_key short_name [cb_connect, cb_timeout] = [cb_connect, cb_timeout]"
  by code_simp

lemma scenario_as_listed_init:
  "init (py_findall v) p cp pm scenario_tree_as_listed =
     Inr ((scenario_builder p cp pm)
            \<lparr>declarations := [''void test_net_tcp__connect(void)'', ''void test_net_tcp__timeout(void)'']\<rparr>)"
  unfolding init_def scenario_as_listed_files
  by (simp add: process_test_file_def scenario_as_listed_found
      scenario_as_listed_sorted[unfolded cb_timeout_def cb_connect_def] str_nat_2
      scenario_builder_def scenario_suite_def initial_builder_def opt_decl_def cb_timeout_def
      cb_connect_def del: sort_key_simps)

lemma collision_files:
  "suite_files ''/proj'' collision_tree = [(''a_b'', collision_first), (''a_b'', collision_second)]"
  by code_simp

lemma collision_init:
  "init (py_findall v) ''/proj'' None ''default'' collision_tree = Inr collision_builder"
  by (induct v; code_simp)

lemma lifecycle_only_found:
  "find_tests (py_findall v) ''x'' lifecycle_only =
     Inr ([], Some \<lparr>short_name = ''initialize'', decl_text = ''void test_x__initialize(void)'',
                     symbol = ''test_x__initialize''\<rparr>,
              Some \<lparr>short_name = ''cleanup'', decl_text = ''void test_x__cleanup(void)'',
                     symbol = ''test_x__cleanup''\<rparr>)"
  by (induct v; code_simp)

lemma sample_files:
  "suite_files ''/proj'' sample_tree =
     [(''util'', sample_util), (''core_vec'', sample_vec), (''core_only'', sample_only)]"
  by code_simp

lemma sample_init:
  "init (py_findall v) ''/proj'' None ''default'' sample_tree = Inr sample_builder"
  by (induct v; code_simp)

lemma sample_file_matches:
  "map (\<lambda>(n, t). file_matches (py_findall v) n t) (suite_files ''/proj'' sample_tree) = sample_matches"
  by (induct v; code_simp)

lemma order_reorder: "reorder order_tree order_tree_listed_otherwise"
proof -
  have "reorder order_tree
          (Dir ([(''a.c'', File order_a)]
                  @ (''d'', Dir [(''z.c'', File order_d_z), (''a.c'', File order_d_a)])
                  # [(''b.c'', File order_b)]))"
    unfolding order_tree_def by (rule reorder.listing) simp
  moreover have "reorder (Dir [(''z.c'', File order_d_z), (''a.c'', File order_d_a)])
                    (Dir [(''a.c'', File order_d_a), (''z.c'', File order_d_z)])"
    by (rule reorder.listing) simp
  then have "reorder
          (Dir ([(''a.c'', File order_a)]
                  @ (''d'', Dir [(''z.c'', File order_d_z), (''a.c'', File order_d_a)])
                  # [(''b.c'', File order_b)]))
          (Dir ([(''a.c'', File order_a)]
                  @ (''d'', Dir [(''a.c'', File order_d_a), (''z.c'', File order_d_z)])
                  # [(''b.c'', File order_b)]))"
    by (rule reorder.inside)
  ultimately show ?thesis
    unfolding order_tree_listed_otherwise_def by (simp add: reorder.trans)
qed

lemma replaced_files:
  "suite_files ''/proj'' replaced_tree =
     [] @ (''a_b_c'', replaced_first) # [] @ (''a_b_c'', replaced_second)
       # [(''a_b_c'', replaced_third)]"
  by code_simp

lemma replaced_init:
  "init (py_findall v) ''/proj'' None ''default'' replaced_tree = Inr replaced_builder"
  by (induct v; code_simp)

lemma replaced_found_first:
  "find_tests (py_findall v) ''a_b_c'' replaced_first =
     Inr ([cb_old],
          Some \<lparr>short_name = ''initialize'', decl_text = ''void test_a_b_c__initialize(void)'',
                 symbol = ''test_a_b_c__initialize''\<rparr>,
          Some \<lparr>short_name = ''cleanup'', decl_text = ''void test_a_b_c__cleanup(void)'',
                 symbol = ''test_a_b_c__cleanup''\<rparr>)"
  by (induct v; code_simp)

lemma replaced_found_second:
  "find_tests (py_findall v) ''a_b_c'' replaced_second = Inr ([cb_new], None, None)"
  by (induct v; code_simp)

subsection \<open>Two general facts behind C1 and C2\<close>

text \<open>Whenever the walk ends without a suite, the run ends with the \<^verbatim>\<open>NameError\<close> and
  nothing written; and the list of suite names gets one element for every file that
  has an ordinary callback, whether or not its name is already there.\<close>

lemma no_suites_name_error:
  assumes "process_all re (suite_files p fs) (initial_builder p cp pm) = Inr b"
    and "suite_data b = []"
  shows "generate v re assets p cp pm fs = ([], Some (NameError ''folder_name''))"
proof -
  have "raise_no_tests (init_scope p cp pm) = NameError ''folder_name''"
    by (cases cp) (simp_all add: raise_no_tests_def init_scope_def eval_name_def)
  then show ?thesis using assms by (simp add: generate_def init_def)
qed

lemma process_all_suite_names:
  "process_all re fs b = Inr b' \<Longrightarrow>
     suite_names b' = suite_names b @ map fst (filter (\<lambda>(n, c). file_decls re n c \<noteq> []) fs)"
proof (induction rule: process_all_induct)
  case (Nil b)
  then show ?case by simp
next
  case (Cons n c fs b b1 b')
  from Cons.hyps(1)
  have "suite_names b1 = suite_names b @ (if file_decls re n c \<noteq> [] then [n] else [])"
    by (rule process_test_file_cases) (auto simp: file_decls_def)
  then show ?case using Cons.IH by simp
qed

subsection \<open>The claims\<close>

text \<open>
  C1. When two files derive the same suite name, the later file replaces the earlier one in
  the two dictionaries, and the claim is that the main text then holds exactly one
  callback array and one suite descriptor for that name. The code appends the name to
  \<^const>\<open>suite_names\<close> once per file, and \<^verbatim>\<open>_render_main\<close> renders one block per element
  of that list: for \<^verbatim>\<open>a_b.c\<close> and \<^verbatim>\<open>a/b.c\<close> the same array and the same descriptor
  are rendered twice (both from the later file), and the suite count is 2 while the
  callback count, taken from the dictionary, is 1. This holds on both interpreters.
\<close>

theorem collision_rendered_twice:
  "init (py_findall v) ''/proj'' None ''default'' collision_tree = Inr collision_builder
   \<and> suite_names collision_builder = [''a_b'', ''a_b'']
   \<and> map fst (suite_data collision_builder) = [''a_b'']
   \<and> rendered_callbacks v collision_builder = Inr [collision_block, collision_block]
   \<and> rendered_suites v collision_builder = Inr [collision_descriptor, collision_descriptor]
   \<and> fmap (\<lambda>m. (map_of m ''clay_suite_count'', map_of m ''clay_callback_count''))
        (main_values v example_assets collision_builder) = Inr (Some ''2'', Some ''1'')"
proof -
  have 1: "suite_names collision_builder = [''a_b'', ''a_b'']"
    and 2: "map fst (suite_data collision_builder) = [''a_b'']"
    by (simp_all add: collision_builder_def)
  have 3: "rendered_callbacks v collision_builder = Inr [collision_block, collision_block]"
    by (induct v; code_simp)
  have 4: "rendered_suites v collision_builder = Inr [collision_descriptor, collision_descriptor]"
    by (induct v; code_simp)
  have 5: "fmap (\<lambda>m. (map_of m ''clay_suite_count'', map_of m ''clay_callback_count''))
        (main_values v example_assets collision_builder) = Inr (Some ''2'', Some ''1'')"
    by (induct v; code_simp)
  show ?thesis using collision_init 1 2 3 4 5 by simp
qed

text \<open>
  C2. When no file yields a suite, the constructor is to fail with a configuration
  error that says that no tests were found and names the path, before anything is
  written. The code fails before anything is written, but line 74 formats the message
  from the unbound name \<^verbatim>\<open>folder_name\<close>: the exception is a \<^verbatim>\<open>NameError\<close> about that
  name, and the \<^verbatim>\<open>RuntimeError\<close> with the message is never built. Shown for an empty
  directory (whatever the engine) and for a directory whose only file has lifecycle
  functions only.
\<close>

theorem no_tests_name_error:
  "generate v re assets p cp pm (Dir []) = ([], Some (NameError ''folder_name''))
   \<and> generate v (py_findall v) assets p cp pm (Dir [(''x.c'', File lifecycle_only)])
       = ([], Some (NameError ''folder_name''))"
proof -
  have s: "raise_no_tests (init_scope p cp pm) = NameError ''folder_name''"
    by (cases cp) (simp_all add: raise_no_tests_def init_scope_def eval_name_def)
  have a: "init re p cp pm (Dir []) = Inl (NameError ''folder_name'')"
    by (simp add: init_def suite_files_def triple_files_def files_of_def dirs_of_def
        initial_builder_def s)
  have "suite_files p (Dir [(''x.c'', File lifecycle_only)]) = [(''x'', lifecycle_only)]"
    by (simp add: suite_files_def triple_files_def files_of_def dirs_of_def fnmatch_c_def
        test_name_top)
  then have b: "init (py_findall v) p cp pm (Dir [(''x.c'', File lifecycle_only)])
                  = Inl (NameError ''folder_name'')"
    by (simp add: init_def process_test_file_def lifecycle_only_found initial_builder_def s)
  show ?thesis using a b by (simp add: generate_def)
qed

text \<open>
  C3, as the code has it. The header holds one \<^verbatim>\<open>extern\<close> line for every element of the
  flat collection, in the sorted order of the full strings, and nothing removes
  duplicates: the lines, joined by newlines, are the value substituted for
  \<^verbatim>\<open>extern_declarations\<close> in the template \<^verbatim>\<open>clay.h\<close>, and stand in the header text
  where the template has the placeholder (shown for a template with the placeholder
  after a text without \<^verbatim>\<open>$\<close>). The collection holds, for every file with at least one ordinary match and
  for no other file, the declaration of every ordinary match of the file, as often as it
  is matched, and one declaration for \<^verbatim>\<open>initialize\<close> and one for \<^verbatim>\<open>cleanup\<close> if the
  file has a match of that name: that of the last such match.
\<close>

theorem header_lines:
  assumes "init re p cp pm fs = Inr b"
  shows "list_all (\<lambda>(n, t). re (format_s TEST_FUNC_REGEX n) t = Inr (file_matches re n t)
                            \<and> list_all (\<lambda>m. length m = 3) (file_matches re n t))
           (suite_files p fs)
       \<and> declarations b
           = concat (map (\<lambda>(n, t). matched_decls (file_matches re n t)) (suite_files p fs))
       \<and> extern_lines b =
           map (\<lambda>d. ''extern '' @ d @ '';'')
               (sort (concat (map (\<lambda>(n, t). matched_decls (file_matches re n t))
                                  (suite_files p fs))))
       \<and> render_header assets b =
           (case assets cp ''clay.h'' of
              Inl e \<Rightarrow> Inl e
            | Inr template \<Rightarrow>
                substitute template
                  [(''extern_declarations'',
                    join [NL]
                      (map (\<lambda>d. ''extern '' @ d @ '';'')
                           (sort (concat (map (\<lambda>(n, t). matched_decls (file_matches re n t))
                                              (suite_files p fs))))))])
       \<and> (\<forall>A B header.
             assets cp ''clay.h'' = Inr (A @ ''${extern_declarations}'' @ B) \<and> CHR ''$'' \<notin> set A
               \<and> render_header assets b = Inr header
             \<longrightarrow> (\<exists>B'. header =
                    A @ join [NL]
                          (map (\<lambda>d. ''extern '' @ d @ '';'')
                               (sort (concat (map (\<lambda>(n, t). matched_decls (file_matches re n t))
                                                  (suite_files p fs)))))
                      @ B'))"
proof -
  have run: "process_all re (suite_files p fs) (initial_builder p cp pm) = Inr b"
    using assms by (rule init_cases(1))
  have ok: "\<exists>r. find_tests re n t = Inr r" if "(n, t) \<in> set (suite_files p fs)" for n t
    using find_tests_success[OF run that] .
  have 1: "list_all (\<lambda>(n, t). re (format_s TEST_FUNC_REGEX n) t = Inr (file_matches re n t)
                            \<and> list_all (\<lambda>m. length m = 3) (file_matches re n t))
           (suite_files p fs)"
  proof (rule list_all_iff[THEN iffD2], rule ballI)
    fix f assume f: "f \<in> set (suite_files p fs)"
    obtain n t where nt: "f = (n, t)" by (cases f)
    from ok[of n t] f obtain r where "find_tests re n t = Inr r" unfolding nt by auto
    then obtain cbs i c where "find_tests re n t = Inr (cbs, i, c)" by (cases r) auto
    from find_tests_file_matches(1,2)[OF this]
    show "case f of (n, t) \<Rightarrow> re (format_s TEST_FUNC_REGEX n) t = Inr (file_matches re n t)
                            \<and> list_all (\<lambda>m. length m = 3) (file_matches re n t)"
      unfolding nt by simp
  qed
  have mm: "map (\<lambda>(n, c). file_decls re n c) (suite_files p fs)
          = map (\<lambda>(n, t). matched_decls (file_matches re n t)) (suite_files p fs)"
  proof (rule map_cong[OF refl])
    fix f assume f: "f \<in> set (suite_files p fs)"
    obtain n t where nt: "f = (n, t)" by (cases f)
    from ok[of n t] f obtain r where "find_tests re n t = Inr r" unfolding nt by auto
    from file_decls_eq[OF this]
    show "(case f of (n, c) \<Rightarrow> file_decls re n c)
            = (case f of (n, t) \<Rightarrow> matched_decls (file_matches re n t))"
      unfolding nt by simp
  qed
  have 2: "declarations b
           = concat (map (\<lambda>(n, t). matched_decls (file_matches re n t)) (suite_files p fs))"
    unfolding init_declarations[OF assms] mm ..
  have 3: "extern_lines b =
           map (\<lambda>d. ''extern '' @ d @ '';'')
               (sort (concat (map (\<lambda>(n, t). matched_decls (file_matches re n t))
                                  (suite_files p fs))))"
    unfolding 2[symmetric] by (simp add: extern_lines_def)
  have 4: "render_header assets b =
           (case assets cp ''clay.h'' of
              Inl e \<Rightarrow> Inl e
            | Inr template \<Rightarrow>
                substitute template
                  [(''extern_declarations'',
                    join [NL]
                      (map (\<lambda>d. ''extern '' @ d @ '';'')
                           (sort (concat (map (\<lambda>(n, t). matched_decls (file_matches re n t))
                                              (suite_files p fs))))))])"
    unfolding 3[symmetric] using init_clay_path[OF assms]
    by (simp add: render_header_def load_file_def)
  have 5: "\<forall>A B header.
             assets cp ''clay.h'' = Inr (A @ ''${extern_declarations}'' @ B) \<and> CHR ''$'' \<notin> set A
               \<and> render_header assets b = Inr header
             \<longrightarrow> (\<exists>B'. header =
                    A @ join [NL]
                          (map (\<lambda>d. ''extern '' @ d @ '';'')
                               (sort (concat (map (\<lambda>(n, t). matched_decls (file_matches re n t))
                                                  (suite_files p fs)))))
                      @ B')"
  proof (intro allI impI, elim conjE)
    fix A B header
    assume a: "assets cp ''clay.h'' = Inr (A @ ''${extern_declarations}'' @ B)"
      "CHR ''$'' \<notin> set A" "render_header assets b = Inr header"
    have a1: "assets (clay_path b) ''clay.h'' = Inr (A @ ''${extern_declarations}'' @ B)"
      using a(1) init_clay_path[OF assms] by simp
    from header_text[OF a1 a(2,3)]
    show "\<exists>B'. header =
                    A @ join [NL]
                          (map (\<lambda>d. ''extern '' @ d @ '';'')
                               (sort (concat (map (\<lambda>(n, t). matched_decls (file_matches re n t))
                                                  (suite_files p fs)))))
                      @ B'"
      unfolding 3 .
  qed
  show ?thesis
    using 1 2 3 4 5 by blast
qed

theorem header_lines_witness:
  "init (py_findall Python3) ''/proj'' None ''default'' sample_tree = Inr sample_builder
   \<and> suite_files ''/proj'' sample_tree
       = [(''util'', sample_util), (''core_vec'', sample_vec), (''core_only'', sample_only)]
   \<and> map (\<lambda>(n, t). file_matches (py_findall Python3) n t) (suite_files ''/proj'' sample_tree)
       = sample_matches
   \<and> map length sample_matches = [6, 1, 2]
   \<and> map matched_decls sample_matches
       = [[''void test_util__initialize( void )'', ''void test_util__cleanup(void)'',
           ''void test_util__zeta(void)'', ''void test_util__alpha(void)'',
           ''void test_util__alpha(void)''],
          [''void test_core_vec__push(void)''],
          []]
   \<and> declarations sample_builder = concat (map matched_decls sample_matches)
   \<and> extern_lines sample_builder
       = map (\<lambda>d. ''extern '' @ d @ '';'') (sort (concat (map matched_decls sample_matches)))
   \<and> extern_lines sample_builder
       = [''extern void test_core_vec__push(void);'', ''extern void test_util__alpha(void);'',
          ''extern void test_util__alpha(void);'', ''extern void test_util__cleanup(void);'',
          ''extern void test_util__initialize( void );'', ''extern void test_util__zeta(void);'']
   \<and> render_header example_assets sample_builder = Inr sample_header
   \<and> example_assets None ''clay.h'' = Inr (''/* clay.h */\<newline>'' @ ''${extern_declarations}'' @ [NL])
   \<and> (\<exists>B'. sample_header =
          ''/* clay.h */\<newline>''
            @ join [NL]
                (map (\<lambda>d. ''extern '' @ d @ '';'') (sort (concat (map matched_decls sample_matches))))
            @ B')"
proof -
  note t = header_lines[OF sample_init[of Python3], of example_assets]
  have c: "map (\<lambda>(n, t). matched_decls (file_matches (py_findall Python3) n t))
               (suite_files ''/proj'' sample_tree)
             = map matched_decls sample_matches"
    unfolding sample_file_matches[of Python3, symmetric] by (simp add: comp_def split_def)
  have 1: "declarations sample_builder = concat (map matched_decls sample_matches)"
    using t[THEN conjunct2, THEN conjunct1] unfolding c .
  have 2: "extern_lines sample_builder
       = map (\<lambda>d. ''extern '' @ d @ '';'') (sort (concat (map matched_decls sample_matches)))"
    using t[THEN conjunct2, THEN conjunct2, THEN conjunct1] unfolding c .
  have n: "map length sample_matches = [6, 1, 2]"
    by code_simp
  have m: "map matched_decls sample_matches
       = [[''void test_util__initialize( void )'', ''void test_util__cleanup(void)'',
           ''void test_util__zeta(void)'', ''void test_util__alpha(void)'',
           ''void test_util__alpha(void)''],
          [''void test_core_vec__push(void)''],
          []]"
    by code_simp
  have e: "extern_lines sample_builder
       = [''extern void test_core_vec__push(void);'', ''extern void test_util__alpha(void);'',
          ''extern void test_util__alpha(void);'', ''extern void test_util__cleanup(void);'',
          ''extern void test_util__initialize( void );'', ''extern void test_util__zeta(void);'']"
    by code_simp
  have r: "render_header example_assets sample_builder = Inr sample_header"
    by code_simp
  have 6: "example_assets None ''clay.h''
             = Inr (''/* clay.h */\<newline>'' @ ''${extern_declarations}'' @ [NL])"
    by (simp add: example_assets_def)
  have "CHR ''$'' \<notin> set ''/* clay.h */\<newline>''"
    by simp
  with t[THEN conjunct2, THEN conjunct2, THEN conjunct2, THEN conjunct2,
      THEN spec, THEN spec, THEN spec, THEN mp, OF conjI, OF 6 conjI, OF _ r]
  have 7: "\<exists>B'. sample_header =
          ''/* clay.h */\<newline>''
            @ join [NL]
                (map (\<lambda>d. ''extern '' @ d @ '';'') (sort (concat (map matched_decls sample_matches))))
            @ B'"
    unfolding c .
  show ?thesis
    using sample_init[of Python3] sample_files sample_file_matches[of Python3] n m 1 2 e r 6 7
    by (intro conjI)
qed

text \<open>The claim C3 as stated fails, on either interpreter. A function written twice in
  one file gives two equal \<^verbatim>\<open>extern\<close> lines. And a matched declaration can have no
  line at all: in the tree of three files above, \<^verbatim>\<open>void test_util__initialize(void)\<close>
  is matched in \<^verbatim>\<open>util.c\<close> and replaced by the later match of \<^verbatim>\<open>initialize\<close>, and
  \<^verbatim>\<open>void test_core_only__cleanup(void)\<close> is matched in \<^verbatim>\<open>core/only.c\<close>, a file
  without an ordinary test; neither is among the six lines of the header.\<close>

theorem twice_header_counterexample:
  "fmap extern_lines (init (py_findall Python2) ''/proj'' None ''default'' twice_tree)
     = Inr [''extern void test_s__a(void);'', ''extern void test_s__a(void);'']
   \<and> fmap extern_lines (init (py_findall Python3) ''/proj'' None ''default'' twice_tree)
     = Inr [''extern void test_s__a(void);'', ''extern void test_s__a(void);'']
   \<and> [''void test_util__initialize(void)'', ''test_util__initialize'', ''initialize'']
       \<in> set (file_matches (py_findall Python3) ''util'' sample_util)
   \<and> [''void test_core_only__cleanup(void)'', ''test_core_only__cleanup'', ''cleanup'']
       \<in> set (file_matches (py_findall Python3) ''core_only'' sample_only)
   \<and> fmap extern_lines (init (py_findall Python3) ''/proj'' None ''default'' sample_tree)
     = Inr [''extern void test_core_vec__push(void);'', ''extern void test_util__alpha(void);'',
            ''extern void test_util__alpha(void);'', ''extern void test_util__cleanup(void);'',
            ''extern void test_util__initialize( void );'', ''extern void test_util__zeta(void);'']"
  by code_simp

text \<open>
  C4. Two runs over the same tree that list the entries of its directories in
  different orders: if one of them builds a registry, so does the other, and the two
  header texts are equal.
\<close>

theorem header_order_independent:
  assumes "reorder fs fs'" and "init re p cp pm fs = Inr b"
  shows "\<exists>b'. init re p cp pm fs' = Inr b' \<and> render_header assets b' = render_header assets b"
proof -
  let ?b0 = "initial_builder p cp pm"
  have m: "mset (suite_files p fs') = mset (suite_files p fs)"
    using reorder_files_under[OF assms(1), of p p] by (simp add: suite_files_under)
  then have s: "set (suite_files p fs') = set (suite_files p fs)"
    by (rule mset_eq_setD)
  have run: "process_all re (suite_files p fs) ?b0 = Inr b" and ne: "suite_data b \<noteq> []"
    using init_cases[OF assms(2)] by simp_all
  have "\<exists>b'. process_all re (suite_files p fs') ?b0 = Inr b'"
    using find_tests_success[OF run] s by (intro process_all_total) simp
  then obtain b' where run': "process_all re (suite_files p fs') ?b0 = Inr b'" ..
  have "suite_data b' \<noteq> []"
    using process_all_suite_data[OF run] process_all_suite_data[OF run'] ne s by simp
  then have i: "init re p cp pm fs' = Inr b'"
    using run' by (simp add: init_def)
  have "mset (declarations b') = mset (declarations b)"
    using init_declarations[OF i] init_declarations[OF assms(2)] m
    by (simp add: mset_concat sum_list_mset_cong[of "suite_files p fs'" "suite_files p fs"])
  then have "sort (declarations b') = sort (declarations b)"
    by (rule sort_mset_cong)
  then have "render_header assets b' = render_header assets b"
    using init_clay_path[OF i] init_clay_path[OF assms(2)]
    by (simp add: render_header_def extern_lines_def load_file_def split: sum.splits)
  then show ?thesis using i by blast
qed

theorem header_order_independent_witness:
  "reorder order_tree order_tree_listed_otherwise
   \<and> map fst (suite_files ''/proj'' order_tree) = [''b'', ''a'', ''d_z'', ''d_a'']
   \<and> map fst (suite_files ''/proj'' order_tree_listed_otherwise) = [''a'', ''b'', ''d_a'', ''d_z'']
   \<and> (\<exists>b b'. init (py_findall Python3) ''/proj'' None ''default'' order_tree = Inr b
         \<and> init (py_findall Python3) ''/proj'' None ''default'' order_tree_listed_otherwise = Inr b'
         \<and> declarations b
             = [''void test_b__run(void)'', ''void test_a__run(void)'',
                ''void test_d_z__cleanup(void)'', ''void test_d_z__run(void)'',
                ''void test_d_a__run(void)'']
         \<and> declarations b'
             = [''void test_a__run(void)'', ''void test_b__run(void)'',
                ''void test_d_a__run(void)'', ''void test_d_z__cleanup(void)'',
                ''void test_d_z__run(void)'']
         \<and> render_header example_assets b = Inr order_header
         \<and> render_header example_assets b' = Inr order_header)"
proof -
  let ?i = "init (py_findall Python3) ''/proj'' None ''default''"
  have f: "map fst (suite_files ''/proj'' order_tree) = [''b'', ''a'', ''d_z'', ''d_a'']"
    "map fst (suite_files ''/proj'' order_tree_listed_otherwise) = [''a'', ''b'', ''d_a'', ''d_z'']"
    by code_simp+
  have "case ?i order_tree of Inl e \<Rightarrow> False | Inr b \<Rightarrow> True"
    by code_simp
  then obtain b where b: "?i order_tree = Inr b"
    by (auto split: sum.splits)
  from header_order_independent[OF order_reorder b, of example_assets]
  obtain b' where b': "?i order_tree_listed_otherwise = Inr b'"
    and h: "render_header example_assets b' = render_header example_assets b"
    by blast
  have "fmap declarations (?i order_tree)
          = Inr [''void test_b__run(void)'', ''void test_a__run(void)'',
                 ''void test_d_z__cleanup(void)'', ''void test_d_z__run(void)'',
                 ''void test_d_a__run(void)'']"
    by code_simp
  then have d: "declarations b
             = [''void test_b__run(void)'', ''void test_a__run(void)'',
                ''void test_d_z__cleanup(void)'', ''void test_d_z__run(void)'',
                ''void test_d_a__run(void)'']"
    unfolding b by (simp add: fmap_def)
  have "fmap declarations (?i order_tree_listed_otherwise)
          = Inr [''void test_a__run(void)'', ''void test_b__run(void)'',
                ''void test_d_a__run(void)'', ''void test_d_z__cleanup(void)'',
                ''void test_d_z__run(void)'']"
    by code_simp
  then have d': "declarations b'
             = [''void test_a__run(void)'', ''void test_b__run(void)'',
                ''void test_d_a__run(void)'', ''void test_d_z__cleanup(void)'',
                ''void test_d_z__run(void)'']"
    unfolding b' by (simp add: fmap_def)
  have "(case ?i order_tree of Inl e \<Rightarrow> Inl e | Inr b \<Rightarrow> render_header example_assets b)
          = Inr order_header"
    by code_simp
  then have r: "render_header example_assets b = Inr order_header"
    unfolding b by simp
  show ?thesis
    using order_reorder f b b' d d' r h by simp
qed

text \<open>
  C5. For every suite of the registry, the callback array of the main text is the line
  \<^verbatim>\<open>static const struct clay_func _clay_cb_<suite>[] = {\<close>, one pair
  \<^verbatim>\<open>{"<short_name>", &<symbol>}\<close> for each stored callback of the suite, and the closing
  line. The stored callbacks are in the order of their short names, none of them is
  \<^verbatim>\<open>initialize\<close> or \<^verbatim>\<open>cleanup\<close>, and they are exactly the ordinary matches of a file
  with that suite name, sorted by short name.
\<close>

theorem callback_block_sorted:
  assumes "init re p cp pm fs = Inr b" and "map_of (callback_data b) s = Some cbs"
  shows "render_callbacks v s cbs =
           Inr (''static const struct clay_func _clay_cb_'' @ s @ ''[] = {\<newline>    ''
                @ join ('','' @ [NL, TAB])
                    (map (\<lambda>cb. ''{'' @ DQ # short_name cb @ DQ # '', &'' @ symbol cb @ ''}'') cbs)
                @ ''\<newline>};'')
       \<and> (\<exists>arrays. rendered_callbacks v b = Inr arrays
             \<and> ''static const struct clay_func _clay_cb_'' @ s @ ''[] = {\<newline>    ''
                @ join ('','' @ [NL, TAB])
                    (map (\<lambda>cb. ''{'' @ DQ # short_name cb @ DQ # '', &'' @ symbol cb @ ''}'') cbs)
                @ ''\<newline>};'' \<in> set arrays)
       \<and> sorted (map short_name cbs)
       \<and> list_all (\<lambda>cb. short_name cb \<noteq> ''initialize'' \<and> short_name cb \<noteq> ''cleanup'') cbs
       \<and> (\<exists>t. (s, t) \<in> set (suite_files p fs)
             \<and> re (format_s TEST_FUNC_REGEX s) t = Inr (file_matches re s t)
             \<and> list_all (\<lambda>m. length m = 3) (file_matches re s t)
             \<and> cbs = sort_key short_name
                       (map callback_of (ordinary_matches (file_matches re s t))))"
proof -
  let ?text = "''static const struct clay_func _clay_cb_'' @ s @ ''[] = {\<newline>    ''
                @ join ('','' @ [NL, TAB])
                    (map (\<lambda>cb. ''{'' @ DQ # short_name cb @ DQ # '', &'' @ symbol cb @ ''}'') cbs)
                @ ''\<newline>};''"
  have ok: "registry_ok b" using assms(1) by (rule registry_ok_init)
  have mem: "(s, cbs) \<in> set (callback_data b)" using assms(2) by (rule map_of_SomeD)
  have "list_all (\<lambda>cd. snd cd \<noteq> [] \<and> sorted (map short_name (snd cd))
                          \<and> list_all ordinary (snd cd))
                 (callback_data b)"
    using ok unfolding registry_ok_def by simp
  then have p: "sorted (map short_name cbs)" "list_all ordinary cbs"
    using mem by (auto simp: list_all_iff)
  have rc: "map render_cb cbs
              = map (\<lambda>cb. ''{'' @ DQ # short_name cb @ DQ # '', &'' @ symbol cb @ ''}'') cbs"
    by (simp add: render_cb_def)
  have r: "render_callbacks v s cbs = Inr ?text"
    using render_callbacks_eq[of v s cbs] filter_ordinary_all[OF p(2)] rc by simp
  have "s \<in> set (map fst (callback_data b))" using mem by force
  then have "s \<in> set (map fst (suite_data b))"
    unfolding registry_keys[OF ok] .
  moreover have "set (suite_names b) = fst ` set (suite_data b)"
    using ok unfolding registry_ok_def by simp
  ultimately have sn: "s \<in> set (sort (suite_names b))"
    by simp
  from rendered_callbacks_ok[OF ok, of v] obtain arrays where
    a: "rendered_callbacks v b = Inr arrays"
    and l: "list_all2 (\<lambda>n blk. \<exists>cbs. map_of (callback_data b) n = Some cbs
                                    \<and> render_callbacks v n cbs = Inr blk)
               (sort (suite_names b)) arrays"
    by blast
  from list_all2_memD[OF l sn] obtain blk where "blk \<in> set arrays"
    "\<exists>cbs. map_of (callback_data b) s = Some cbs \<and> render_callbacks v s cbs = Inr blk"
    by blast
  then have "?text \<in> set arrays"
    using assms(2) r by auto
  then have ar: "\<exists>arrays. rendered_callbacks v b = Inr arrays \<and> ?text \<in> set arrays"
    using a by blast
  have run: "process_all re (suite_files p fs) (initial_builder p cp pm) = Inr b"
    using assms(1) by (rule init_cases(1))
  from process_all_callback_data[OF run assms(2)] obtain t cbs0 i c where
    t: "(s, t) \<in> set (suite_files p fs)" and f: "find_tests re s t = Inr (cbs0, i, c)"
    and c: "cbs = sort_key short_name cbs0"
    by (auto simp: initial_builder_def)
  have o: "\<exists>t. (s, t) \<in> set (suite_files p fs)
             \<and> re (format_s TEST_FUNC_REGEX s) t = Inr (file_matches re s t)
             \<and> list_all (\<lambda>m. length m = 3) (file_matches re s t)
             \<and> cbs = sort_key short_name
                       (map callback_of (ordinary_matches (file_matches re s t)))"
    using t c find_tests_file_matches(1,2,3)[OF f] by blast
  have q: "list_all (\<lambda>cb. short_name cb \<noteq> ''initialize'' \<and> short_name cb \<noteq> ''cleanup'') cbs"
    using p(2) by (simp add: ordinary_def list_all_iff)
  show ?thesis using r ar p(1) q o by blast
qed

theorem callback_block_sorted_witness:
  "init (py_findall Python3) ''/proj'' None ''default'' sample_tree = Inr sample_builder
   \<and> map_of (callback_data sample_builder) ''util'' = Some [cb_alpha, cb_alpha, cb_zeta]
   \<and> file_matches (py_findall Python3) ''util'' sample_util = hd sample_matches
   \<and> map (\<lambda>m. m ! 2) (hd sample_matches)
       = [''zeta'', ''initialize'', ''alpha'', ''initialize'', ''cleanup'', ''alpha'']
   \<and> sort_key short_name (map callback_of (ordinary_matches (hd sample_matches)))
       = [cb_alpha, cb_alpha, cb_zeta]
   \<and> render_callbacks Python3 ''util'' [cb_alpha, cb_alpha, cb_zeta] = Inr sample_util_array
   \<and> (\<exists>arrays. rendered_callbacks Python3 sample_builder = Inr arrays
         \<and> sample_util_array \<in> set arrays)
   \<and> sorted (map short_name [cb_alpha, cb_alpha, cb_zeta])"
proof -
  have m: "map_of (callback_data sample_builder) ''util'' = Some [cb_alpha, cb_alpha, cb_zeta]"
    by (simp add: sample_builder_def)
  note t = callback_block_sorted[OF sample_init[of Python3] m, of Python3]
  have x: "''static const struct clay_func _clay_cb_'' @ ''util'' @ ''[] = {\<newline>    ''
                @ join ('','' @ [NL, TAB])
                    (map (\<lambda>cb. ''{'' @ DQ # short_name cb @ DQ # '', &'' @ symbol cb @ ''}'')
                         [cb_alpha, cb_alpha, cb_zeta])
                @ ''\<newline>};'' = sample_util_array"
    by code_simp
  have f: "file_matches (py_findall Python3) ''util'' sample_util = hd sample_matches"
    by code_simp
  have n: "map (\<lambda>m. m ! 2) (hd sample_matches)
       = [''zeta'', ''initialize'', ''alpha'', ''initialize'', ''cleanup'', ''alpha'']"
    by code_simp
  have k: "sort_key short_name (map callback_of (ordinary_matches (hd sample_matches)))
       = [cb_alpha, cb_alpha, cb_zeta]"
    by code_simp
  have 1: "render_callbacks Python3 ''util'' [cb_alpha, cb_alpha, cb_zeta] = Inr sample_util_array"
    using t[THEN conjunct1] unfolding x .
  have 2: "\<exists>arrays. rendered_callbacks Python3 sample_builder = Inr arrays
         \<and> sample_util_array \<in> set arrays"
    using t[THEN conjunct2, THEN conjunct1] unfolding x .
  have 3: "sorted (map short_name [cb_alpha, cb_alpha, cb_zeta])"
    using t[THEN conjunct2, THEN conjunct2, THEN conjunct1] .
  show ?thesis
    using sample_init[of Python3] m f n k 1 2 3 by (intro conjI)
qed

text \<open>
  C6. The scenario \<^verbatim>\<open>net/tcp.c\<close>, under any root path and on either interpreter, with
  the two functions in the order of the scenario and in the other order: the suite is
  named \<^verbatim>\<open>net_tcp\<close>, its ordinary callbacks are \<^verbatim>\<open>connect\<close> and \<^verbatim>\<open>timeout\<close> in this
  order, its callback count is 2, and its descriptor shows the name \<^verbatim>\<open>net::tcp\<close>.
\<close>

theorem net_tcp_scenario:
  "test_name p (path_join p ''net'') ''tcp.c'' = ''net_tcp''
   \<and> fmap suite_names (init (py_findall v) p cp pm scenario_tree) = Inr [''net_tcp'']
   \<and> fmap suite_names (init (py_findall v) p cp pm scenario_tree_as_listed) = Inr [''net_tcp'']
   \<and> fmap callback_data (init (py_findall v) p cp pm scenario_tree)
       = Inr [(''net_tcp'', [cb_connect, cb_timeout])]
   \<and> fmap callback_data (init (py_findall v) p cp pm scenario_tree_as_listed)
       = Inr [(''net_tcp'', [cb_connect, cb_timeout])]
   \<and> map short_name [cb_connect, cb_timeout] = [''connect'', ''timeout'']
   \<and> fmap suite_data (init (py_findall v) p cp pm scenario_tree_as_listed)
       = Inr [(''net_tcp'', \<lparr>name = ''net_tcp'', initialize = None, cleanup = None, cb_count = 2\<rparr>)]
   \<and> fmap suite_data (init (py_findall v) p cp pm scenario_tree)
       = Inr [(''net_tcp'', \<lparr>name = ''net_tcp'', initialize = None, cleanup = None, cb_count = 2\<rparr>)]
   \<and> render_suite v \<lparr>name = ''net_tcp'', initialize = None, cleanup = None, cb_count = 2\<rparr>
       = Inr (''{\<newline>        '' @ DQ # ''net::tcp'' @ DQ
              # '',\<newline>        {NULL, NULL},\<newline>        {NULL, NULL},\<newline>        _clay_cb_net_tcp, 2\<newline>    }'')"
proof -
  have "replace CHR ''_'' ''::'' ''net_tcp'' = ''net::tcp''"
    by (simp add: replace_def)
  moreover have "str_nat 2 = ''2''"
    by code_simp
  ultimately have r:
    "render_suite v \<lparr>name = ''net_tcp'', initialize = None, cleanup = None, cb_count = 2\<rparr>
       = Inr (''{\<newline>        '' @ DQ # ''net::tcp'' @ DQ
              # '',\<newline>        {NULL, NULL},\<newline>        {NULL, NULL},\<newline>        _clay_cb_net_tcp, 2\<newline>    }'')"
    by (simp add: render_suite_eq render_lifecycle_def)
  have n: "test_name p (path_join p ''net'') ''tcp.c'' = ''net_tcp''"
    by (simp add: test_name_sub)
  have s: "map short_name [cb_connect, cb_timeout] = [''connect'', ''timeout'']"
    by (simp add: cb_connect_def cb_timeout_def)
  show ?thesis
    using n r s
    by (simp add: scenario_init scenario_as_listed_init fmap_def scenario_builder_def
        scenario_suite_def)
qed

text \<open>
  C7. The main text is the template \<^verbatim>\<open>clay.c\<close> with five values substituted. The
  value of \<^verbatim>\<open>clay_callback_count\<close> is the sum of the callback counts of the suites of
  the registry; the value of \<^verbatim>\<open>clay_suite_count\<close> is the number of the rendered suite
  descriptors, which are the value of \<^verbatim>\<open>clay_suites\<close>, one for each element of the list
  of suite names.
\<close>

theorem aggregate_counts:
  assumes "init re p cp pm fs = Inr b"
  shows "\<exists>blocks arrays.
           rendered_suites v b = Inr blocks \<and> rendered_callbacks v b = Inr arrays
         \<and> length blocks = length (suite_names b)
         \<and> render_main v assets b =
             (case assets cp ''clay.c'' of
                Inl e \<Rightarrow> Inl e
              | Inr template \<Rightarrow>
                  (case get_modules assets b of
                     Inl e \<Rightarrow> Inl e
                   | Inr mods \<Rightarrow>
                       substitute template
                         [(''clay_modules'', mods),
                          (''clay_callbacks'', join [NL] arrays),
                          (''clay_suites'', join ('','' @ [NL, TAB]) blocks),
                          (''clay_suite_count'', str_nat (length blocks)),
                          (''clay_callback_count'',
                           str_nat (sum_list (map (\<lambda>(s, su). cb_count su) (suite_data b))))]))"
proof -
  have ok: "registry_ok b" using assms by (rule registry_ok_init)
  then have c: "callback_count b = sum_list (map (\<lambda>(s, su). cb_count su) (suite_data b))"
    by (rule callback_count_eq)
  from rendered_suites_ok[OF ok, of v] obtain blocks where
    s: "rendered_suites v b = Inr blocks"
    and l: "list_all2 (\<lambda>n blk. \<exists>su. map_of (suite_data b) n = Some su \<and> render_suite v su = Inr blk)
               (sort (suite_names b)) blocks"
    by blast
  from rendered_callbacks_ok[OF ok, of v] obtain arrays where
    a: "rendered_callbacks v b = Inr arrays"
    by blast
  have n: "length blocks = length (suite_names b)"
    using list_all2_lengthD[OF l] by simp
  have "render_main v assets b =
             (case assets cp ''clay.c'' of
                Inl e \<Rightarrow> Inl e
              | Inr template \<Rightarrow>
                  (case get_modules assets b of
                     Inl e \<Rightarrow> Inl e
                   | Inr mods \<Rightarrow>
                       substitute template
                         [(''clay_modules'', mods),
                          (''clay_callbacks'', join [NL] arrays),
                          (''clay_suites'', join ('','' @ [NL, TAB]) blocks),
                          (''clay_suite_count'', str_nat (length blocks)),
                          (''clay_callback_count'',
                           str_nat (sum_list (map (\<lambda>(s, su). cb_count su) (suite_data b))))]))"
    using init_clay_path[OF assms]
    by (simp add: render_main_def main_values_def load_file_def s a c split: sum.splits)
  then show ?thesis using s a n by blast
qed

theorem aggregate_counts_witness:
  "init (py_findall Python3) ''/proj'' None ''default'' sample_tree = Inr sample_builder
   \<and> map (\<lambda>(s, su). cb_count su) (suite_data sample_builder) = [3, 1]
   \<and> fmap length (rendered_suites Python3 sample_builder) = Inr 2
   \<and> fmap (\<lambda>m. (map_of m ''clay_suite_count'', map_of m ''clay_callback_count''))
        (main_values Python3 example_assets sample_builder) = Inr (Some ''2'', Some ''4'')
   \<and> render_main Python3 example_assets sample_builder = Inr sample_main
   \<and> (\<exists>blocks arrays.
         rendered_suites Python3 sample_builder = Inr blocks
       \<and> rendered_callbacks Python3 sample_builder = Inr arrays
       \<and> length blocks = 2
       \<and> substitute ''$clay_modules\<newline>$clay_callbacks\<newline>suites = {${clay_suites}};\<newline>suite_count = $clay_suite_count; callback_count = $clay_callback_count;''
           [(''clay_modules'', ''/* clay_sandbox.c */\<newline>/* clay_fixtures.c */\<newline>/* clay_fs.c */\<newline>/* clay_print_default.c */''),
            (''clay_callbacks'', join [NL] arrays),
            (''clay_suites'', join ('','' @ [NL, TAB]) blocks),
            (''clay_suite_count'', ''2''),
            (''clay_callback_count'', ''4'')] = Inr sample_main)"
proof -
  from aggregate_counts[OF sample_init[of Python3], of Python3 example_assets]
  obtain blocks arrays where
    s: "rendered_suites Python3 sample_builder = Inr blocks"
    and a: "rendered_callbacks Python3 sample_builder = Inr arrays"
    and n: "length blocks = length (suite_names sample_builder)"
    and r: "render_main Python3 example_assets sample_builder =
             (case example_assets None ''clay.c'' of
                Inl e \<Rightarrow> Inl e
              | Inr template \<Rightarrow>
                  (case get_modules example_assets sample_builder of
                     Inl e \<Rightarrow> Inl e
                   | Inr mods \<Rightarrow>
                       substitute template
                         [(''clay_modules'', mods),
                          (''clay_callbacks'', join [NL] arrays),
                          (''clay_suites'', join ('','' @ [NL, TAB]) blocks),
                          (''clay_suite_count'', str_nat (length blocks)),
                          (''clay_callback_count'',
                           str_nat (sum_list (map (\<lambda>(s, su). cb_count su)
                                                  (suite_data sample_builder))))]))"
    by blast
  have c: "map (\<lambda>(s, su). cb_count su) (suite_data sample_builder) = [3, 1]"
    by (simp add: sample_builder_def)
  have l: "length (suite_names sample_builder) = 2"
    by (simp add: sample_builder_def)
  have g: "get_modules example_assets sample_builder
             = Inr ''/* clay_sandbox.c */\<newline>/* clay_fixtures.c */\<newline>/* clay_fs.c */\<newline>/* clay_print_default.c */''"
    by code_simp
  have t: "example_assets None ''clay.c''
             = Inr ''$clay_modules\<newline>$clay_callbacks\<newline>suites = {${clay_suites}};\<newline>suite_count = $clay_suite_count; callback_count = $clay_callback_count;''"
    by (simp add: example_assets_def)
  have e: "render_main Python3 example_assets sample_builder = Inr sample_main"
    by code_simp
  have k: "str_nat 2 = ''2''" "str_nat 4 = ''4''"
    by code_simp+
  have 1: "fmap length (rendered_suites Python3 sample_builder) = Inr 2"
    using s n l by (simp add: fmap_def)
  have 2: "fmap (\<lambda>m. (map_of m ''clay_suite_count'', map_of m ''clay_callback_count''))
        (main_values Python3 example_assets sample_builder) = Inr (Some ''2'', Some ''4'')"
    by code_simp
  have 3: "substitute ''$clay_modules\<newline>$clay_callbacks\<newline>suites = {${clay_suites}};\<newline>suite_count = $clay_suite_count; callback_count = $clay_callback_count;''
           [(''clay_modules'', ''/* clay_sandbox.c */\<newline>/* clay_fixtures.c */\<newline>/* clay_fs.c */\<newline>/* clay_print_default.c */''),
            (''clay_callbacks'', join [NL] arrays),
            (''clay_suites'', join ('','' @ [NL, TAB]) blocks),
            (''clay_suite_count'', ''2''),
            (''clay_callback_count'', ''4'')] = Inr sample_main"
    using r unfolding e t g n l c by (simp add: k)
  have 4: "\<exists>blocks arrays.
         rendered_suites Python3 sample_builder = Inr blocks
       \<and> rendered_callbacks Python3 sample_builder = Inr arrays
       \<and> length blocks = 2
       \<and> substitute ''$clay_modules\<newline>$clay_callbacks\<newline>suites = {${clay_suites}};\<newline>suite_count = $clay_suite_count; callback_count = $clay_callback_count;''
           [(''clay_modules'', ''/* clay_sandbox.c */\<newline>/* clay_fixtures.c */\<newline>/* clay_fs.c */\<newline>/* clay_print_default.c */''),
            (''clay_callbacks'', join [NL] arrays),
            (''clay_suites'', join ('','' @ [NL, TAB]) blocks),
            (''clay_suite_count'', ''2''),
            (''clay_callback_count'', ''4'')] = Inr sample_main"
    using s a n[unfolded l] 3 by (intro exI conjI)
  show ?thesis
    using sample_init[of Python3] c 1 2 e 4 by (intro conjI)
qed

text \<open>
  C8. A file whose extraction gives no ordinary callback, whatever lifecycle callbacks it
  gives, leaves the builder as it was: no suite, no new element of the flat collection,
  no printed line, no exception.
\<close>

theorem skipped_file:
  "find_tests re s t = Inr ([], i, c) \<Longrightarrow> process_test_file re s t b = Inr b"
  by (simp add: process_test_file_def)

theorem skipped_file_witness:
  "find_tests (py_findall Python3) ''x'' lifecycle_only =
     Inr ([], Some \<lparr>short_name = ''initialize'', decl_text = ''void test_x__initialize(void)'',
                     symbol = ''test_x__initialize''\<rparr>,
              Some \<lparr>short_name = ''cleanup'', decl_text = ''void test_x__cleanup(void)'',
                     symbol = ''test_x__cleanup''\<rparr>)
   \<and> process_test_file (py_findall Python3) ''x'' lifecycle_only
         (scenario_builder ''/proj'' None ''default'')
       = Inr (scenario_builder ''/proj'' None ''default'')"
  using skipped_file[OF lifecycle_only_found[of Python3],
      of "scenario_builder ''/proj'' None ''default''"]
    lifecycle_only_found[of Python3]
  by simp

text \<open>
  C10. The flat collection only grows: what it holds after any number of files is the
  beginning of what it holds at the end of the walk. When a file gives a suite and a
  later file with the same suite name gives a suite too, every string that the earlier
  file added, for its lifecycle and its ordinary callbacks, is still in the collection,
  and its \<^verbatim>\<open>extern\<close> line is among the lines that make the header text: it stands in
  the header text whenever the template \<^verbatim>\<open>clay.h\<close> has the placeholder
  \<^verbatim>\<open>${extern_declarations}\<close> after a text without \<^verbatim>\<open>$\<close>. The registry
  holds, under that name, the callbacks and the suite of the last file of that name that
  gives a suite (the later file, or one after it), and every suite descriptor of the main
  text is rendered from the suite that the registry holds for its name.
\<close>

theorem replaced_suite_keeps_declarations:
  assumes "init re p cp pm fs = Inr b"
    and "suite_files p fs = pre @ (s, t1) # mid @ (s, t2) # post"
    and "find_tests re s t1 = Inr (cbs1, i1, c1)" and "cbs1 \<noteq> []"
    and "find_tests re s t2 = Inr (cbs2, i2, c2)" and "cbs2 \<noteq> []"
  shows "(\<forall>xs ys. suite_files p fs = xs @ ys \<longrightarrow>
            (\<exists>b1 new. process_all re xs (initial_builder p cp pm) = Inr b1
                \<and> declarations b = declarations b1 @ new))
       \<and> (\<exists>before after.
            declarations b = before @ (opt_decl i1 @ opt_decl c1 @ map decl_text cbs1) @ after)
       \<and> list_all (\<lambda>d. ''extern '' @ d @ '';'' \<in> set (extern_lines b))
                   (opt_decl i1 @ opt_decl c1 @ map decl_text cbs1)
       \<and> render_header assets b =
           (case assets cp ''clay.h'' of
              Inl e \<Rightarrow> Inl e
            | Inr template \<Rightarrow>
                substitute template [(''extern_declarations'', join [NL] (extern_lines b))])
       \<and> (\<forall>A B header.
             assets cp ''clay.h'' = Inr (A @ ''${extern_declarations}'' @ B) \<and> CHR ''$'' \<notin> set A
               \<and> render_header assets b = Inr header
             \<longrightarrow> list_all (\<lambda>d. \<exists>u w. header = u @ (''extern '' @ d @ '';'') @ w)
                    (opt_decl i1 @ opt_decl c1 @ map decl_text cbs1))
       \<and> (\<exists>t cbs i c. (s, t) \<in> set ((s, t2) # post) \<and> find_tests re s t = Inr (cbs, i, c)
            \<and> cbs \<noteq> []
            \<and> map_of (callback_data b) s = Some (sort_key short_name cbs)
            \<and> map_of (suite_data b) s
                 = Some \<lparr>name = s, initialize = i, cleanup = c, cb_count = length cbs\<rparr>)
       \<and> (\<exists>blocks. rendered_suites v b = Inr blocks
            \<and> list_all2 (\<lambda>n blk. \<exists>su. map_of (suite_data b) n = Some su
                                     \<and> render_suite v su = Inr blk)
                 (sort (suite_names b)) blocks)"
proof -
  let ?fs = "pre @ (s, t1) # mid @ (s, t2) # post"
  let ?b0 = "initial_builder p cp pm"
  have run: "process_all re ?fs ?b0 = Inr b"
    using init_cases(1)[OF assms(1)] unfolding assms(2) .
  have A: "\<forall>xs ys. suite_files p fs = xs @ ys \<longrightarrow>
            (\<exists>b1 new. process_all re xs ?b0 = Inr b1 \<and> declarations b = declarations b1 @ new)"
  proof (intro allI impI)
    fix xs ys assume e: "suite_files p fs = xs @ ys"
    from init_cases(1)[OF assms(1)] obtain b1 where 1: "process_all re xs ?b0 = Inr b1"
      and 2: "process_all re ys b1 = Inr b"
      unfolding e process_all_append by (auto split: sum.splits)
    from process_all_declarations[OF 2] show
      "\<exists>b1 new. process_all re xs ?b0 = Inr b1 \<and> declarations b = declarations b1 @ new"
      using 1 by blast
  qed
  have d: "declarations b = concat (map (\<lambda>(n, c). file_decls re n c) ?fs)"
    using process_all_declarations[OF run] by (simp add: initial_builder_def)
  have f1: "file_decls re s t1 = opt_decl i1 @ opt_decl c1 @ map decl_text cbs1"
    using assms(3,4) by (simp add: file_decls_def)
  have B: "\<exists>before after.
            declarations b = before @ (opt_decl i1 @ opt_decl c1 @ map decl_text cbs1) @ after"
    unfolding d f1[symmetric]
    by (intro exI[of _ "concat (map (\<lambda>(n, c). file_decls re n c) pre)"]
        exI[of _ "concat (map (\<lambda>(n, c). file_decls re n c) (mid @ (s, t2) # post))"]) simp
  then have sub: "set (opt_decl i1 @ opt_decl c1 @ map decl_text cbs1) \<subseteq> set (declarations b)"
    by auto
  have ext: "set (extern_lines b) = (\<lambda>d. ''extern '' @ d @ '';'') ` set (declarations b)"
    by (simp add: extern_lines_def)
  have C: "list_all (\<lambda>d. ''extern '' @ d @ '';'' \<in> set (extern_lines b))
                   (opt_decl i1 @ opt_decl c1 @ map decl_text cbs1)"
    unfolding list_all_iff ext using sub by blast
  have D: "render_header assets b =
           (case assets cp ''clay.h'' of
              Inl e \<Rightarrow> Inl e
            | Inr template \<Rightarrow>
                substitute template [(''extern_declarations'', join [NL] (extern_lines b))])"
    using init_clay_path[OF assms(1)] by (simp add: render_header_def load_file_def)
  have G: "\<forall>A B header.
             assets cp ''clay.h'' = Inr (A @ ''${extern_declarations}'' @ B) \<and> CHR ''$'' \<notin> set A
               \<and> render_header assets b = Inr header
             \<longrightarrow> list_all (\<lambda>d. \<exists>u w. header = u @ (''extern '' @ d @ '';'') @ w)
                    (opt_decl i1 @ opt_decl c1 @ map decl_text cbs1)"
  proof (intro allI impI, elim conjE)
    fix A B header
    assume a: "assets cp ''clay.h'' = Inr (A @ ''${extern_declarations}'' @ B)"
      "CHR ''$'' \<notin> set A" "render_header assets b = Inr header"
    have a1: "assets (clay_path b) ''clay.h'' = Inr (A @ ''${extern_declarations}'' @ B)"
      using a(1) init_clay_path[OF assms(1)] by simp
    show "list_all (\<lambda>d. \<exists>u w. header = u @ (''extern '' @ d @ '';'') @ w)
                    (opt_decl i1 @ opt_decl c1 @ map decl_text cbs1)"
    proof (rule list_all_iff[THEN iffD2], rule ballI)
      fix d assume "d \<in> set (opt_decl i1 @ opt_decl c1 @ map decl_text cbs1)"
      then have "''extern '' @ d @ '';'' \<in> set (extern_lines b)"
        using C by (simp add: list_all_iff)
      from header_contains[OF a1 a(2,3) this]
      show "\<exists>u w. header = u @ (''extern '' @ d @ '';'') @ w" .
    qed
  qed
  have split: "?fs = (pre @ (s, t1) # mid) @ (s, t2) # post" by simp
  from run obtain b1 where 2: "process_all re ((s, t2) # post) b1 = Inr b"
    unfolding split process_all_append[of re "pre @ (s, t1) # mid"] by (auto split: sum.splits)
  from process_all_entry[OF 2, of s]
  have E: "\<exists>t cbs i c. (s, t) \<in> set ((s, t2) # post) \<and> find_tests re s t = Inr (cbs, i, c)
            \<and> cbs \<noteq> []
            \<and> map_of (callback_data b) s = Some (sort_key short_name cbs)
            \<and> map_of (suite_data b) s
                 = Some \<lparr>name = s, initialize = i, cleanup = c, cb_count = length cbs\<rparr>"
  proof
    assume "\<exists>t cbs i c. (s, t) \<in> set ((s, t2) # post) \<and> find_tests re s t = Inr (cbs, i, c)
            \<and> cbs \<noteq> []
            \<and> map_of (callback_data b) s = Some (sort_key short_name cbs)
            \<and> map_of (suite_data b) s
                 = Some \<lparr>name = s, initialize = i, cleanup = c, cb_count = length cbs\<rparr>"
    then show ?thesis .
  next
    assume "(\<forall>t cbs i c. (s, t) \<in> set ((s, t2) # post) \<longrightarrow> find_tests re s t = Inr (cbs, i, c)
                \<longrightarrow> cbs = [])
            \<and> map_of (callback_data b) s = map_of (callback_data b1) s
            \<and> map_of (suite_data b) s = map_of (suite_data b1) s"
    then have "cbs2 = []" using assms(5) by auto
    then show ?thesis using assms(6) by simp
  qed
  have F: "\<exists>blocks. rendered_suites v b = Inr blocks
            \<and> list_all2 (\<lambda>n blk. \<exists>su. map_of (suite_data b) n = Some su
                                     \<and> render_suite v su = Inr blk)
                 (sort (suite_names b)) blocks"
    using rendered_suites_ok[OF registry_ok_init[OF assms(1)]] .
  show ?thesis using A B C D G E F by blast
qed

theorem replaced_suite_keeps_declarations_witness:
  "init (py_findall Python3) ''/proj'' None ''default'' replaced_tree = Inr replaced_builder
   \<and> suite_files ''/proj'' replaced_tree
       = [] @ (''a_b_c'', replaced_first) # [] @ (''a_b_c'', replaced_second)
           # [(''a_b_c'', replaced_third)]
   \<and> find_tests (py_findall Python3) ''a_b_c'' replaced_first =
       Inr ([cb_old],
            Some \<lparr>short_name = ''initialize'', decl_text = ''void test_a_b_c__initialize(void)'',
                   symbol = ''test_a_b_c__initialize''\<rparr>,
            Some \<lparr>short_name = ''cleanup'', decl_text = ''void test_a_b_c__cleanup(void)'',
                   symbol = ''test_a_b_c__cleanup''\<rparr>)
   \<and> find_tests (py_findall Python3) ''a_b_c'' replaced_second = Inr ([cb_new], None, None)
   \<and> find_tests (py_findall Python3) ''a_b_c'' replaced_third
       = Inr ([], Some \<lparr>short_name = ''initialize'',
                        decl_text = ''void test_a_b_c__initialize( void )'',
                        symbol = ''test_a_b_c__initialize''\<rparr>, None)
   \<and> list_all (\<lambda>d. ''extern '' @ d @ '';'' \<in> set (extern_lines replaced_builder))
        [''void test_a_b_c__initialize(void)'', ''void test_a_b_c__cleanup(void)'',
         ''void test_a_b_c__old(void)'']
   \<and> render_header example_assets replaced_builder = Inr replaced_header
   \<and> example_assets None ''clay.h'' = Inr (''/* clay.h */\<newline>'' @ ''${extern_declarations}'' @ [NL])
   \<and> list_all (\<lambda>d. \<exists>u w. replaced_header = u @ (''extern '' @ d @ '';'') @ w)
        [''void test_a_b_c__initialize(void)'', ''void test_a_b_c__cleanup(void)'',
         ''void test_a_b_c__old(void)'']
   \<and> map_of (callback_data replaced_builder) ''a_b_c'' = Some [cb_new]
   \<and> map_of (suite_data replaced_builder) ''a_b_c''
       = Some \<lparr>name = ''a_b_c'', initialize = None, cleanup = None, cb_count = 1\<rparr>
   \<and> rendered_suites Python3 replaced_builder = Inr [replaced_descriptor, replaced_descriptor]
   \<and> rendered_callbacks Python3 replaced_builder = Inr [replaced_array, replaced_array]"
proof -
  note t = replaced_suite_keeps_declarations[OF replaced_init[of Python3] replaced_files
      replaced_found_first[of Python3] _ replaced_found_second[of Python3] _,
      of example_assets Python3]
  have n: "[cb_old] \<noteq> []" "[cb_new] \<noteq> []" by simp_all
  have 1: "list_all (\<lambda>d. ''extern '' @ d @ '';'' \<in> set (extern_lines replaced_builder))
        [''void test_a_b_c__initialize(void)'', ''void test_a_b_c__cleanup(void)'',
         ''void test_a_b_c__old(void)'']"
    using t[OF n] by (simp add: opt_decl_def cb_old_def)
  have h: "substitute ''/* clay.h */\<newline>${extern_declarations}\<newline>''
             [(''extern_declarations'', join [NL] (extern_lines replaced_builder))]
             = Inr replaced_header"
    by code_simp
  have 2: "render_header example_assets replaced_builder = Inr replaced_header"
    using t[OF n] by (simp add: example_assets_def h)
  have 6: "example_assets None ''clay.h''
             = Inr (''/* clay.h */\<newline>'' @ ''${extern_declarations}'' @ [NL])"
    by (simp add: example_assets_def)
  have "CHR ''$'' \<notin> set ''/* clay.h */\<newline>''"
    by simp
  with t[OF n, THEN conjunct2, THEN conjunct2, THEN conjunct2, THEN conjunct2, THEN conjunct1,
      THEN spec, THEN spec, THEN spec, THEN mp, OF conjI, OF 6 conjI, OF _ 2]
  have 7: "list_all (\<lambda>d. \<exists>u w. replaced_header = u @ (''extern '' @ d @ '';'') @ w)
        [''void test_a_b_c__initialize(void)'', ''void test_a_b_c__cleanup(void)'',
         ''void test_a_b_c__old(void)'']"
    by (simp add: opt_decl_def cb_old_def)
  have 3: "find_tests (py_findall Python3) ''a_b_c'' replaced_third
       = Inr ([], Some \<lparr>short_name = ''initialize'',
                        decl_text = ''void test_a_b_c__initialize( void )'',
                        symbol = ''test_a_b_c__initialize''\<rparr>, None)"
    by code_simp
  have 4: "map_of (callback_data replaced_builder) ''a_b_c'' = Some [cb_new]"
    "map_of (suite_data replaced_builder) ''a_b_c''
       = Some \<lparr>name = ''a_b_c'', initialize = None, cleanup = None, cb_count = 1\<rparr>"
    by (simp_all add: replaced_builder_def)
  have 5: "rendered_suites Python3 replaced_builder = Inr [replaced_descriptor, replaced_descriptor]"
    "rendered_callbacks Python3 replaced_builder = Inr [replaced_array, replaced_array]"
    by code_simp+
  show ?thesis
    using replaced_init[of Python3] replaced_files replaced_found_first[of Python3]
      replaced_found_second[of Python3] 1 2 3 4 5 6 7
    by (intro conjI)
qed

subsection \<open>The character classes\<close>





subsection \<open>The pattern, compiled\<close>






subsection \<open>Every match is a text of the language of the expression\<close>

lemma adv_Nil [simp]: "adv p [] = p"
  by (simp add: adv_def)

lemma adv_single [simp]: "adv p [x] = Some x"
  by (simp add: adv_def)












lemma atom_ok_Space [simp]: "atom_ok v Space = is_space v"
  by (rule ext) simp

lemma atom_ok_Word [simp]: "atom_ok v Word = is_word v"
  by (rule ext) simp


subsection \<open>The first match of the pattern\<close>








lemma startsI: "starts X (X @ mo)"
  by (auto simp: starts_def)















subsection \<open>The shape of the specification and the pattern\<close>









subsection \<open>No declaration starts inside another\<close>



















end
